theory Spec2Isabelle
  imports Main
begin

section \<open>Data model of the playbook executor\<close>

text \<open>
  The executor (package \<open>executor\<close>: \<open>Exec\<close>, \<open>execBlock\<close>, \<open>executeTask\<close>,
  \<open>execLoop\<close>, \<open>executeModule\<close>, \<open>mergeVariable\<close>) is embedded as pure functions
  that pass the mutable objects of the Go code explicitly: the pipeline (\<open>e.pipeline\<close>),
  the variable store (\<open>e.variable\<close>) and the tasks handed to the client.

  Go's \<open>any\<close> values (variables, loop items, unrecognised block fields) are the values
  a YAML or JSON document holds.
\<close>

datatype anyv =
    VNil
  | VStr string
  | VInt int
  | VBool bool
  | VList "anyv list"
  | VMap "(string \<times> anyv) list"

type_synonym vars = "(string \<times> anyv) list"

text \<open>
  A Go \<open>error\<close> value is its message; a run-time panic (an index out of range, a call
  of a nil function) is kept apart from returned errors.
\<close>

datatype error = Error string | Panic

datatype PipelinePhase =
  PipelinePhasePending | PipelinePhaseRunning | PipelinePhaseSucceed | PipelinePhaseFailed

datatype TaskPhase =
  TaskPhasePending | TaskPhaseRunning | TaskPhaseSuccess | TaskPhaseFailed | TaskPhaseIgnored

text \<open>
  \<open>TaskHostResult\<close>, \<open>TaskFailedDetail\<close> and \<open>PipelineFailedDetailHost\<close> all are the
  triple of host, stdout and stderr.
\<close>

record HostResult =
  hr_Host :: string
  hr_Stdout :: string
  hr_StdErr :: string

text \<open>
  A task: object meta (name, generate name, namespace, controller owner), spec and
  status. \<open>t_Loop\<close> is \<open>Spec.Loop.Raw\<close> (\<open>None\<close> is the nil raw extension); a
  \<open>TaskCondition\<close> is kept as its list of host results (its two timestamps are wall
  clock readings and are left out).
\<close>

record Task =
  t_Name :: string
  t_GenerateName :: string
  t_Namespace :: string
  t_Owner :: "string option"
  t_Role :: string
  t_SpecName :: string
  t_Hosts :: "string list"
  t_When :: "string list"
  t_FailedWhen :: "string list"
  t_IgnoreError :: bool
  t_Register :: string
  t_Loop :: "anyv option"
  t_ModuleName :: string
  t_ModuleArgs :: string
  t_Phase :: TaskPhase
  t_RestartCount :: int
  t_Conditions :: "HostResult list list"
  t_FailedDetail :: "HostResult list"

record PipelineFailedDetail =
  fd_Task :: string
  fd_Hosts :: "HostResult list"

text \<open>
  The pipeline: name, namespace, the tag filters of its spec and its status. The Go
  code assigns \<open>Status.Phase\<close> in place; \<open>p_PhaseWrites\<close> keeps every value assigned
  to it, oldest first, so that the order of the assignments can be stated.
\<close>

record Pipeline =
  p_Name :: string
  p_Namespace :: string
  p_Tags :: "string list"
  p_SkipTags :: "string list"
  p_Phase :: PipelinePhase
  p_PhaseWrites :: "PipelinePhase list"
  p_Total :: int
  p_Success :: int
  p_Ignored :: int
  p_Failed :: int
  p_FailedDetail :: "PipelineFailedDetail list"
  p_Reason :: string

datatype Block = Block
  (b_Name: string)
  (b_Tags: "string list")
  (b_When: "string list")
  (b_Vars: vars)
  (b_RunOnce: bool)
  (b_Block: "Block list")
  (b_Rescue: "Block list")
  (b_Always: "Block list")
  (b_IncludeTasks: string)
  (b_UnknownFiled: "(string \<times> anyv) list")
  (b_FailedWhen: "string list")
  (b_Register: string)
  (b_Loop: "anyv option")
  (b_IgnoreErrors: bool)

record Role =
  r_Role :: string
  r_Name :: string
  r_Vars :: vars
  r_When :: "string list"
  r_Block :: "Block list"

record Play =
  pl_Name :: string
  pl_Tags :: "string list"
  pl_Hosts :: "string list"
  pl_GatherFacts :: bool
  pl_RunOnce :: bool
  pl_Serial :: "anyv list"
  pl_Vars :: vars
  pl_PreTasks :: "Block list"
  pl_Roles :: "Role list"
  pl_Tasks :: "Block list"
  pl_PostTasks :: "Block list"

text \<open>
  The state of the executor: the pipeline, the variable store (of a type \<open>'v\<close> the
  executor never looks into) and the tasks passed to \<open>client.Create\<close>, oldest first.
\<close>

record 'v executor =
  pipeline :: Pipeline
  variable :: 'v
  created :: "Task list"

section \<open>External collaborators\<close>

text \<open>
  The packages the executor calls (\<open>variable\<close>, \<open>tmpl\<close>, \<open>modules\<close>, \<open>converter\<close>,
  \<open>project\<close>, the controller-runtime client, \<open>json\<close>) are not part of the executor.
  They are parameters of the embedding. A module receives \<open>ExecOptions\<close> (args, host,
  task, pipeline, and the variable store, which it may change) and returns stdout and
  stderr. \<open>Merge\<close> returns its error, if any, and the store it leaves behind.
\<close>

type_synonym 'v module =
  "string \<Rightarrow> string \<Rightarrow> Task \<Rightarrow> Pipeline \<Rightarrow> 'v \<Rightarrow> (string \<times> string) \<times> 'v"

type_synonym project = "string + Play list"

record 'v env =
  project_New :: "Pipeline \<Rightarrow> string + project"
  IsEnabled :: "string list \<Rightarrow> string list \<Rightarrow> string list \<Rightarrow> bool"
  Get_Hostnames :: "'v \<Rightarrow> string list \<Rightarrow> string + string list"
  Get_AllVariable :: "'v \<Rightarrow> string \<Rightarrow> string + vars"
  Merge_RuntimeVariable :: "'v \<Rightarrow> string \<Rightarrow> vars \<Rightarrow> string option \<times> 'v"
  Merge_RemoteVariable :: "'v \<Rightarrow> string \<Rightarrow> vars \<Rightarrow> string option \<times> 'v"
  getGatherFact :: "'v \<Rightarrow> string \<Rightarrow> string + vars"
  GroupHostBySerial :: "string list \<Rightarrow> anyv list \<Rightarrow> string + string list list"
  SetControllerReference :: "Pipeline \<Rightarrow> Task \<Rightarrow> string option"
  json_Marshal :: "anyv \<Rightarrow> string + string"
  FindModule :: "string \<Rightarrow> 'v module option"
  client_Create :: "Task list \<Rightarrow> Task \<Rightarrow> string + string"
  client_Status_Update :: "Task \<Rightarrow> string option"
  ParseBool :: "vars \<Rightarrow> string list \<Rightarrow> string + bool"
  Extension2Slice :: "vars \<Rightarrow> anyv \<Rightarrow> anyv list"

section \<open>Module dispatch and the task runner\<close>

text \<open>
  \<open>modules.FindModule(task.Spec.Module.Name)(ctx, opts)\<close>: calling the nil function
  of an unregistered name panics.
\<close>

definition call_module ::
  "'v env \<Rightarrow> Task \<Rightarrow> string \<Rightarrow> Pipeline \<Rightarrow> 'v \<Rightarrow> error + ((string \<times> string) \<times> 'v)" where
  "call_module env task host pl v =
     (case FindModule env (t_ModuleName task) of
        None \<Rightarrow> Inl Panic
      | Some m \<Rightarrow> Inr (m (t_ModuleArgs task) host task pl v))"

definition executeModule ::
  "'v env \<Rightarrow> Task \<Rightarrow> string \<Rightarrow> Pipeline \<Rightarrow> 'v \<Rightarrow> error + ((string \<times> string) \<times> 'v)" where
  "executeModule env task host pl v =
     (case Get_AllVariable env v host of
        Inl err \<Rightarrow> Inr (('''', err), v)
      | Inr lg \<Rightarrow>
          if length (t_FailedWhen task) > 0 then
            (case ParseBool env lg (t_FailedWhen task) of
               Inl err \<Rightarrow> Inr (('''', err), v)
             | Inr ok \<Rightarrow>
                 if ok then Inr (('''', ''failed by failedWhen''), v)
                 else call_module env task host pl v)
          else call_module env task host pl v)"

definition execLoop :: "'v env \<Rightarrow> vars \<Rightarrow> Task \<Rightarrow> string + anyv list" where
  "execLoop env ha task =
     (case t_Loop task of
        None \<Rightarrow> Inr [VNil]
      | Some raw \<Rightarrow> Inr (Extension2Slice env ha raw))"

text \<open>
  The \<open>for _, item := range loop\<close> of a host's unit of work. \<open>stdout\<close> and \<open>stderr\<close>
  are the goroutine's two variables: each module invocation overwrites both.
\<close>

fun run_items ::
  "'v env \<Rightarrow> Task \<Rightarrow> string \<Rightarrow> Pipeline \<Rightarrow> anyv list \<Rightarrow> string \<times> string \<Rightarrow> 'v
     \<Rightarrow> error + ((string \<times> string) \<times> 'v)" where
  "run_items env task host pl [] out v = Inr (out, v)"
| "run_items env task host pl (item # rest) out v =
     (case Merge_RuntimeVariable env v host [(''item'', item)] of
        (Some err, v1) \<Rightarrow> Inr ((fst out, ''set loop item to variable error: '' @ err), v1)
      | (None, v1) \<Rightarrow>
          (case executeModule env task host pl v1 of
             Inl p \<Rightarrow> Inl p
           | Inr (out', v2) \<Rightarrow>
               (case Merge_RuntimeVariable env v2 host [(''item'', VNil)] of
                  (Some err, v3) \<Rightarrow>
                    Inr ((fst out', ''clean loop item to variable error: '' @ err), v3)
                | (None, v3) \<Rightarrow> run_items env task host pl rest out' v3)))"

definition host_loop ::
  "'v env \<Rightarrow> Task \<Rightarrow> string \<Rightarrow> Pipeline \<Rightarrow> vars \<Rightarrow> 'v \<Rightarrow> error + ((string \<times> string) \<times> 'v)" where
  "host_loop env task host pl ha v =
     (case execLoop env ha task of
        Inl err \<Rightarrow> Inr (('''', ''parse loop vars error: '' @ err), v)
      | Inr loop \<Rightarrow> run_items env task host pl loop ('''', '''') v)"

text \<open>The body of the goroutine of one host, up to its deferred function.\<close>

definition host_body ::
  "'v env \<Rightarrow> Task \<Rightarrow> string \<Rightarrow> Pipeline \<Rightarrow> 'v \<Rightarrow> error + ((string \<times> string) \<times> 'v)" where
  "host_body env task host pl v =
     (case Get_AllVariable env v host of
        Inl err \<Rightarrow> Inr (('''', ''get variable error: '' @ err), v)
      | Inr ha \<Rightarrow>
          if length (t_When task) > 0 then
            (case ParseBool env ha (t_When task) of
               Inl err \<Rightarrow> Inr (('''', ''parse when condition error: '' @ err), v)
             | Inr ok \<Rightarrow>
                 if \<not> ok then Inr ((''skip'', ''''), v)
                 else host_loop env task host pl ha v)
          else host_loop env task host pl ha v)"

text \<open>
  The deferred function of the goroutine: the register merge, then the send on
  \<open>dataChan\<close>. \<open>None\<close> is a goroutine that returned without sending.
\<close>

definition host_deferred ::
  "'v env \<Rightarrow> Task \<Rightarrow> string \<Rightarrow> string \<times> string \<Rightarrow> 'v \<Rightarrow> HostResult option \<times> 'v" where
  "host_deferred env task host out v =
     (if t_Register task \<noteq> '''' then
        (case Merge_RuntimeVariable env v host
                [(t_Register task, VMap [(''stdout'', VStr (fst out)), (''stderr'', VStr (snd out))])] of
           (Some err, v') \<Rightarrow> (None, v')
         | (None, v') \<Rightarrow>
             (Some \<lparr>hr_Host = host, hr_Stdout = fst out, hr_StdErr = snd out\<rparr>, v'))
      else (Some \<lparr>hr_Host = host, hr_Stdout = fst out, hr_StdErr = snd out\<rparr>, v))"

definition run_host ::
  "'v env \<Rightarrow> Task \<Rightarrow> Pipeline \<Rightarrow> string \<Rightarrow> 'v \<Rightarrow> error + (HostResult option \<times> 'v)" where
  "run_host env task pl host v =
     (case host_body env task host pl v of
        Inl p \<Rightarrow> Inl p
      | Inr (out, v') \<Rightarrow> Inr (host_deferred env task host out v'))"

text \<open>
  The goroutines of the hosts share the variable store and nothing else. They are run
  here one after the other, in the order of \<open>task.Spec.Hosts\<close>: one of the schedules
  of the Go program. The list returned is what \<open>dataChan\<close> delivers.
\<close>

fun run_hosts ::
  "'v env \<Rightarrow> Task \<Rightarrow> Pipeline \<Rightarrow> string list \<Rightarrow> 'v \<Rightarrow> error + (HostResult list \<times> 'v)" where
  "run_hosts env task pl [] v = Inr ([], v)"
| "run_hosts env task pl (h # hs) v =
     (case run_host env task pl h v of
        Inl p \<Rightarrow> Inl p
      | Inr (r, v') \<Rightarrow>
          (case run_hosts env task pl hs v' of
             Inl p \<Rightarrow> Inl p
           | Inr (rs, v'') \<Rightarrow> Inr ((case r of None \<Rightarrow> rs | Some d \<Rightarrow> d # rs), v'')))"

text \<open>The \<open>for data := range dataChan\<close> of \<open>executeTask\<close>; \<open>cd\<close> is \<open>cd.HostResults\<close>.\<close>

fun collect :: "HostResult list \<Rightarrow> Task \<times> HostResult list \<Rightarrow> Task \<times> HostResult list" where
  "collect [] (task, cd) = (task, cd)"
| "collect (d # ds) (task, cd) =
     collect ds
       ((if hr_StdErr d \<noteq> '''' then
           (if t_IgnoreError task then task\<lparr>t_Phase := TaskPhaseIgnored\<rparr>
            else task\<lparr>t_Phase := TaskPhaseFailed,
                      t_FailedDetail := t_FailedDetail task @ [d]\<rparr>)
         else task),
        cd @ [d])"

text \<open>
  \<open>executeTask\<close> returns the task as mutated and the store; its Go result is the nil
  error on every path, so \<open>Inl\<close> is a panic of a host's goroutine.
\<close>

definition executeTask ::
  "'v env \<Rightarrow> Task \<Rightarrow> Pipeline \<Rightarrow> 'v \<Rightarrow> error + (Task \<times> 'v)" where
  "executeTask env task pl v =
     (case run_hosts env task pl (t_Hosts task) v of
        Inl p \<Rightarrow> Inl p
      | Inr (datas, v') \<Rightarrow>
          (case collect datas (task\<lparr>t_Phase := TaskPhaseSuccess\<rparr>, []) of
             (task', cd) \<Rightarrow>
               Inr (task'\<lparr>t_Conditions := t_Conditions task' @ [cd]\<rparr>, v')))"

section \<open>The block walker\<close>

text \<open>
  Modelled from the spec: \<open>converter.MarshalBlock\<close>, which is not among the sources.
  The task's spec takes over the block's name, the when-stack handed in, failed-when,
  register, loop, ignore-error and the hosts handed in; the module is left for the
  walker to select; the status starts at Pending.
\<close>

definition MarshalBlock :: "string \<Rightarrow> string list \<Rightarrow> string list \<Rightarrow> Block \<Rightarrow> Task" where
  "MarshalBlock role hosts when at =
     \<lparr>t_Name = '''', t_GenerateName = '''', t_Namespace = '''', t_Owner = None,
      t_Role = role, t_SpecName = b_Name at, t_Hosts = hosts, t_When = when,
      t_FailedWhen = b_FailedWhen at, t_IgnoreError = b_IgnoreErrors at,
      t_Register = b_Register at, t_Loop = b_Loop at,
      t_ModuleName = '''', t_ModuleArgs = '''',
      t_Phase = TaskPhasePending, t_RestartCount = 0,
      t_Conditions = [], t_FailedDetail = []\<rparr>"

text \<open>
  Modelled from the spec: \<open>Task.IsComplete\<close> and \<open>Task.IsFailed\<close>, which are not among
  the sources. The terminal phases are Succeeded, Ignored and Failed.
\<close>

definition IsComplete :: "Task \<Rightarrow> bool" where
  "IsComplete task =
     (t_Phase task = TaskPhaseSuccess \<or> t_Phase task = TaskPhaseIgnored
      \<or> t_Phase task = TaskPhaseFailed)"

definition IsFailed :: "Task \<Rightarrow> bool" where
  "IsFailed task = (t_Phase task = TaskPhaseFailed)"

definition set_phase :: "PipelinePhase \<Rightarrow> Pipeline \<Rightarrow> Pipeline" where
  "set_phase ph p = p\<lparr>p_Phase := ph, p_PhaseWrites := p_PhaseWrites p @ [ph]\<rparr>"

fun merge_hosts :: "'v env \<Rightarrow> vars \<Rightarrow> string list \<Rightarrow> 'v \<Rightarrow> string option \<times> 'v" where
  "merge_hosts env vd [] v = (None, v)"
| "merge_hosts env vd (host # hosts) v =
     (case Merge_RuntimeVariable env v host vd of
        (Some err, v') \<Rightarrow> (Some err, v')
      | (None, v') \<Rightarrow> merge_hosts env vd hosts v')"

definition mergeVariable :: "'v env \<Rightarrow> vars \<Rightarrow> string list \<Rightarrow> 'v \<Rightarrow> string option \<times> 'v" where
  "mergeVariable env vd hosts v =
     (if length vd = 0 then (None, v) else merge_hosts env vd hosts v)"

text \<open>
  \<open>for n, a := range at.UnknownFiled\<close>: the list is the map in the order the range
  visits it.
\<close>

fun complete_module :: "'v env \<Rightarrow> (string \<times> anyv) list \<Rightarrow> Task \<Rightarrow> string + Task" where
  "complete_module env [] task = Inr task"
| "complete_module env ((n, a) # rest) task =
     (case json_Marshal env a of
        Inl err \<Rightarrow> Inl err
      | Inr data \<Rightarrow>
          (case FindModule env n of
             Some m \<Rightarrow> Inr (task\<lparr>t_ModuleName := n, t_ModuleArgs := data\<rparr>)
           | None \<Rightarrow> complete_module env rest task))"

text \<open>
  The task drive loop \<open>for { ... if task.IsComplete() { break } }\<close>. The error of the
  first \<open>Status().Update\<close> of a round is only logged. \<open>None\<close> is a loop that never
  ends.
\<close>

partial_function (option) drive_task ::
  "'v env \<Rightarrow> Task \<Rightarrow> 'v executor \<Rightarrow> (error option \<times> Task \<times> 'v executor) option" where
  "drive_task env task e =
     (case executeTask env (task\<lparr>t_Phase := TaskPhaseRunning\<rparr>) (pipeline e) (variable e) of
        Inl err \<Rightarrow> Some (Some err, task\<lparr>t_Phase := TaskPhaseRunning\<rparr>, e)
      | Inr (task', v') \<Rightarrow>
          (case client_Status_Update env task' of
             Some err \<Rightarrow> Some (Some (Error err), task', e\<lparr>variable := v'\<rparr>)
           | None \<Rightarrow>
               if IsComplete task' then Some (None, task', e\<lparr>variable := v'\<rparr>)
               else drive_task env task' (e\<lparr>variable := v'\<rparr>)))"

text \<open>The counters and the failure record after the drive loop.\<close>

definition count_task :: "Task \<Rightarrow> Pipeline \<Rightarrow> Pipeline" where
  "count_task task p =
     (case t_Phase task of
        TaskPhaseSuccess \<Rightarrow> p\<lparr>p_Total := p_Total p + 1, p_Success := p_Success p + 1\<rparr>
      | TaskPhaseIgnored \<Rightarrow> p\<lparr>p_Total := p_Total p + 1, p_Ignored := p_Ignored p + 1\<rparr>
      | TaskPhaseFailed \<Rightarrow> p\<lparr>p_Total := p_Total p + 1, p_Failed := p_Failed p + 1\<rparr>
      | _ \<Rightarrow> p\<lparr>p_Total := p_Total p + 1\<rparr>)"

definition fail_pipeline :: "Task \<Rightarrow> Pipeline \<Rightarrow> Pipeline" where
  "fail_pipeline task p =
     (set_phase PipelinePhaseFailed
        (p\<lparr>p_FailedDetail := p_FailedDetail p @
              [\<lparr>fd_Task = t_SpecName task,
                fd_Hosts = map (\<lambda>tr. \<lparr>hr_Host = hr_Host tr, hr_Stdout = hr_Stdout tr,
                                      hr_StdErr = hr_StdErr tr\<rparr>) (t_FailedDetail task)\<rparr>]\<rparr>))
       \<lparr>p_Reason := ''task '' @ t_Name task @ '' run failed''\<rparr>"

definition finish_task :: "Task \<Rightarrow> 'v executor \<Rightarrow> error option \<times> 'v executor" where
  "finish_task task e =
     (if IsFailed task then
        (Some (Error (''task '' @ t_Name task @ '' run failed'')),
         e\<lparr>pipeline := fail_pipeline task (count_task task (pipeline e))\<rparr>)
      else (None, e\<lparr>pipeline := count_task task (pipeline e)\<rparr>))"

text \<open>The \<open>default\<close> case of the walker's switch: a leaf block becomes a task.\<close>

definition exec_leaf ::
  "'v env \<Rightarrow> string list \<Rightarrow> string \<Rightarrow> string list \<Rightarrow> Block \<Rightarrow> 'v executor
     \<Rightarrow> (error option \<times> 'v executor) option" where
  "exec_leaf env hosts role when at e =
     (let task = (MarshalBlock role hosts (when @ b_When at) at)
                   \<lparr>t_GenerateName := p_Name (pipeline e) @ ''-'',
                    t_Namespace := p_Namespace (pipeline e)\<rparr>
      in case SetControllerReference env (pipeline e) task of
           Some err \<Rightarrow> Some (Some (Error err), e)
         | None \<Rightarrow>
             (case complete_module env (b_UnknownFiled at)
                     (task\<lparr>t_Owner := Some (p_Name (pipeline e))\<rparr>) of
                Inl err \<Rightarrow> Some (Some (Error err), e)
              | Inr task1 \<Rightarrow>
                  if t_ModuleName task1 = '''' then
                    Some (Some (Error (''no module/action detected in task: '' @ t_Name task1)), e)
                  else
                    (case client_Create env (created e) task1 of
                       Inl err \<Rightarrow> Some (Some (Error err), e\<lparr>created := created e @ [task1]\<rparr>)
                     | Inr name \<Rightarrow>
                         (case drive_task env (task1\<lparr>t_Name := name\<rparr>)
                                 (e\<lparr>created := created e @ [task1]\<rparr>) of
                            None \<Rightarrow> None
                          | Some (Some err, task2, e2) \<Rightarrow> Some (Some err, e2)
                          | Some (None, task2, e2) \<Rightarrow> Some (finish_task task2 e2)))))"

text \<open>
  \<open>execBlock\<close>: \<open>hosts\<close>, \<open>role\<close> and \<open>when\<close> are the fields of \<open>execBlockOptions\<close>,
  the list is \<open>options.blocks\<close>. \<open>options.hosts[0]\<close> panics on an empty host list.
\<close>

fun execBlock ::
  "'v env \<Rightarrow> string list \<Rightarrow> string \<Rightarrow> string list \<Rightarrow> Block list \<Rightarrow> 'v executor
     \<Rightarrow> (error option \<times> 'v executor) option" where
  "execBlock env hosts role when [] e = Some (None, e)"
| "execBlock env hosts role when
     (Block name tags bwhen bvars runonce nested rescue always incl unknown fw reg lp ign # rest) e =
     (if \<not> IsEnabled env tags (p_Tags (pipeline e)) (p_SkipTags (pipeline e))
      then execBlock env hosts role when rest e
      else
        (case (if runonce then (case hosts of [] \<Rightarrow> None | h # _ \<Rightarrow> Some [h]) else Some hosts) of
           None \<Rightarrow> Some (Some Panic, e)
         | Some hosts' \<Rightarrow>
             (case mergeVariable env bvars hosts' (variable e) of
                (Some err, v') \<Rightarrow> Some (Some (Error err), e\<lparr>variable := v'\<rparr>)
              | (None, v') \<Rightarrow>
                  (case
                     (if nested \<noteq> [] then
                        (case execBlock env hosts' role (when @ bwhen) nested (e\<lparr>variable := v'\<rparr>) of
                           None \<Rightarrow> None
                         | Some (Some err, e1) \<Rightarrow> Some (Some err, e1)
                         | Some (None, e1) \<Rightarrow>
                             (case
                                (if p_Phase (pipeline e1) = PipelinePhaseFailed \<and> rescue \<noteq> []
                                 then execBlock env hosts' role (when @ bwhen) rescue e1
                                 else Some (None, e1)) of
                                None \<Rightarrow> None
                              | Some (Some err, e2) \<Rightarrow> Some (Some err, e2)
                              | Some (None, e2) \<Rightarrow>
                                  (if always \<noteq> []
                                   then execBlock env hosts' role (when @ bwhen) always e2
                                   else Some (None, e2))))
                      else if incl \<noteq> '''' then Some (None, e\<lparr>variable := v'\<rparr>)
                      else exec_leaf env hosts' role when
                             (Block name tags bwhen bvars runonce nested rescue always incl
                                unknown fw reg lp ign)
                             (e\<lparr>variable := v'\<rparr>)) of
                     None \<Rightarrow> None
                   | Some (Some err, e3) \<Rightarrow> Some (Some err, e3)
                   | Some (None, e3) \<Rightarrow> execBlock env hosts role when rest e3))))"

section \<open>The play driver and \<open>Exec\<close>\<close>

text \<open>The \<open>for _, h := range hosts\<close> under \<open>if play.GatherFacts\<close>.\<close>

fun gather_facts :: "'v env \<Rightarrow> string list \<Rightarrow> 'v \<Rightarrow> string option \<times> 'v" where
  "gather_facts env [] v = (None, v)"
| "gather_facts env (h # hs) v =
     (case getGatherFact env v h of
        Inl err \<Rightarrow> (Some err, v)
      | Inr gfv \<Rightarrow>
          (case Merge_RemoteVariable env v h gfv of
             (Some err, v') \<Rightarrow> (Some err, v')
           | (None, v') \<Rightarrow> gather_facts env hs v'))"

text \<open>The \<open>for _, role := range play.Roles\<close> of a batch.\<close>

fun exec_roles ::
  "'v env \<Rightarrow> string list \<Rightarrow> Role list \<Rightarrow> 'v executor \<Rightarrow> (error option \<times> 'v executor) option" where
  "exec_roles env serials [] e = Some (None, e)"
| "exec_roles env serials (role # roles) e =
     (case mergeVariable env (r_Vars role) serials (variable e) of
        (Some err, v') \<Rightarrow> Some (Some (Error err), e\<lparr>variable := v'\<rparr>)
      | (None, v') \<Rightarrow>
          (case execBlock env serials (r_Role role) (r_When role) (r_Block role)
                  (e\<lparr>variable := v'\<rparr>) of
             None \<Rightarrow> None
           | Some (Some err, e1) \<Rightarrow> Some (Some err, e1)
           | Some (None, e1) \<Rightarrow> exec_roles env serials roles e1))"

text \<open>
  The body of \<open>for _, serials := range batchHosts\<close>. The fourth walk is the one under
  the comment \<open>generate task from post tasks\<close>; the source hands it \<open>play.Tasks\<close>.
\<close>

definition exec_batch ::
  "'v env \<Rightarrow> Play \<Rightarrow> string list \<Rightarrow> 'v executor \<Rightarrow> (error option \<times> 'v executor) option" where
  "exec_batch env play serials e =
     (if length serials = 0 then Some (Some (Error ''host is empty''), e)
      else
        (case mergeVariable env (pl_Vars play) serials (variable e) of
           (Some err, v') \<Rightarrow> Some (Some (Error err), e\<lparr>variable := v'\<rparr>)
         | (None, v') \<Rightarrow>
             (case execBlock env serials '''' [] (pl_PreTasks play) (e\<lparr>variable := v'\<rparr>) of
                None \<Rightarrow> None
              | Some (Some err, e1) \<Rightarrow> Some (Some err, e1)
              | Some (None, e1) \<Rightarrow>
                  (case exec_roles env serials (pl_Roles play) e1 of
                     None \<Rightarrow> None
                   | Some (Some err, e2) \<Rightarrow> Some (Some err, e2)
                   | Some (None, e2) \<Rightarrow>
                       (case execBlock env serials '''' [] (pl_Tasks play) e2 of
                          None \<Rightarrow> None
                        | Some (Some err, e3) \<Rightarrow> Some (Some err, e3)
                        | Some (None, e3) \<Rightarrow>
                            execBlock env serials '''' [] (pl_Tasks play) e3)))))"

fun exec_batches ::
  "'v env \<Rightarrow> Play \<Rightarrow> string list list \<Rightarrow> 'v executor \<Rightarrow> (error option \<times> 'v executor) option" where
  "exec_batches env play [] e = Some (None, e)"
| "exec_batches env play (serials # batchHosts) e =
     (case exec_batch env play serials e of
        None \<Rightarrow> None
      | Some (Some err, e1) \<Rightarrow> Some (Some err, e1)
      | Some (None, e1) \<Rightarrow> exec_batches env play batchHosts e1)"

text \<open>
  The body of \<open>for _, play := range pb.Play\<close>. The result \<open>(None, e)\<close> stands for
  \<open>continue\<close> as well as for the end of the body.
\<close>

definition exec_play ::
  "'v env \<Rightarrow> Play \<Rightarrow> 'v executor \<Rightarrow> (error option \<times> 'v executor) option" where
  "exec_play env play e =
     (if \<not> IsEnabled env (pl_Tags play) (p_Tags (pipeline e)) (p_SkipTags (pipeline e))
      then Some (None, e)
      else
        (case (case Get_Hostnames env (variable e) (pl_Hosts play) of
                 Inl err \<Rightarrow> []
               | Inr ahn \<Rightarrow> ahn) of
           [] \<Rightarrow> Some (None, e)
         | h # hs \<Rightarrow>
             (case (if pl_GatherFacts play then gather_facts env (h # hs) (variable e)
                    else (None, variable e)) of
                (Some err, v') \<Rightarrow> Some (Some (Error err), e\<lparr>variable := v'\<rparr>)
              | (None, v') \<Rightarrow>
                  (case (if pl_RunOnce play then Inr [[h]]
                         else GroupHostBySerial env (h # hs) (pl_Serial play)) of
                     Inl err \<Rightarrow> Some (Some (Error err), e\<lparr>variable := v'\<rparr>)
                   | Inr batchHosts \<Rightarrow>
                       exec_batches env play batchHosts (e\<lparr>variable := v'\<rparr>)))))"

fun exec_plays ::
  "'v env \<Rightarrow> Play list \<Rightarrow> 'v executor \<Rightarrow> (error option \<times> 'v executor) option" where
  "exec_plays env [] e = Some (None, e)"
| "exec_plays env (play # plays) e =
     (case exec_play env play e of
        None \<Rightarrow> None
      | Some (Some err, e1) \<Rightarrow> Some (Some err, e1)
      | Some (None, e1) \<Rightarrow> exec_plays env plays e1)"

text \<open>The deferred function of \<open>Exec\<close>: two assignments to the phase.\<close>

definition Exec_deferred :: "Pipeline \<Rightarrow> Pipeline" where
  "Exec_deferred p =
     (let p1 = set_phase PipelinePhaseSucceed p
      in if length (p_FailedDetail p1) \<noteq> 0 then set_phase PipelinePhaseFailed p1 else p1)"

text \<open>
  \<open>Exec\<close> after its first assignment, up to its return. (\<open>playbookPath\<close> is computed
  and never read.)
\<close>

definition Exec_body :: "'v env \<Rightarrow> 'v executor \<Rightarrow> (error option \<times> 'v executor) option" where
  "Exec_body env e =
     (case project_New env (pipeline e) of
        Inl err \<Rightarrow> Some (Some (Error err), e)
      | Inr pj \<Rightarrow>
          (case pj of
             Inl err \<Rightarrow> Some (Some (Error err), e)
           | Inr pb \<Rightarrow> exec_plays env pb e))"

definition Exec :: "'v env \<Rightarrow> 'v executor \<Rightarrow> (error option \<times> 'v executor) option" where
  "Exec env e =
     (case Exec_body env (e\<lparr>pipeline := set_phase PipelinePhaseRunning (pipeline e)\<rparr>) of
        None \<Rightarrow> None
      | Some (err, e') \<Rightarrow> Some (err, e'\<lparr>pipeline := Exec_deferred (pipeline e')\<rparr>))"

section \<open>The store's side of the loop item\<close>

text \<open>
  The executor never looks into the variable store, so what \<open>item\<close> is to the store
  must be said by the store. \<open>holds_item v h\<close> reads: in the store \<open>v\<close>, the overlay of
  host \<open>h\<close> holds an item value. A store, the modules and the register name of a task
  keep the discipline of the loop item when
  \<^item> the merge of \<open>{item: nil}\<close> for a host succeeds and leaves that host without an
    item value;
  \<^item> a merge for one host brings no item value to another host;
  \<^item> a merge of \<open>{item: x}\<close> that fails brings no item value;
  \<^item> the merge of the register map brings no item value (the register is not named
    \<open>item\<close>);
  \<^item> the task's module, run for one host, brings no item value to another host.
\<close>

definition item_discipline ::
  "'v env \<Rightarrow> Task \<Rightarrow> Pipeline \<Rightarrow> ('v \<Rightarrow> string \<Rightarrow> bool) \<Rightarrow> bool" where
  "item_discipline env task pl holds_item =
     ((\<forall>v h. fst (Merge_RuntimeVariable env v h [(''item'', VNil)]) = None
              \<and> \<not> holds_item (snd (Merge_RuntimeVariable env v h [(''item'', VNil)])) h)
      \<and> (\<forall>v h vd h'. h' \<noteq> h \<longrightarrow> holds_item (snd (Merge_RuntimeVariable env v h vd)) h'
              \<longrightarrow> holds_item v h')
      \<and> (\<forall>v h x. fst (Merge_RuntimeVariable env v h [(''item'', x)]) \<noteq> None
              \<longrightarrow> holds_item (snd (Merge_RuntimeVariable env v h [(''item'', x)])) h
              \<longrightarrow> holds_item v h)
      \<and> (\<forall>v h x. holds_item (snd (Merge_RuntimeVariable env v h [(t_Register task, x)])) h
              \<longrightarrow> holds_item v h)
      \<and> (\<forall>m v h h'. FindModule env (t_ModuleName task) = Some m \<longrightarrow> h' \<noteq> h
              \<longrightarrow> holds_item (snd (m (t_ModuleArgs task) h task pl v)) h'
              \<longrightarrow> holds_item v h'))"

section \<open>A concrete environment\<close>

text \<open>
  An environment on which the functions above can be run: a variable store that keeps
  one runtime overlay per host (a nil value clears its key), three modules (\<open>echo\<close>
  succeeds, \<open>fail\<close> fails, \<open>mark\<close> sets a variable of its host), conditions that
  name variables, one batch per play, and collaborators that never fail.
\<close>

type_synonym store = "((string \<times> string) \<times> anyv) list"

definition store_put :: "string \<Rightarrow> store \<Rightarrow> string \<times> anyv \<Rightarrow> store" where
  "store_put h v kx =
     (if snd kx = VNil then filter (\<lambda>e. fst e \<noteq> (h, fst kx)) v
      else ((h, fst kx), snd kx) # filter (\<lambda>e. fst e \<noteq> (h, fst kx)) v)"

definition store_merge :: "store \<Rightarrow> string \<Rightarrow> vars \<Rightarrow> string option \<times> store" where
  "store_merge v h vd = (None, foldl (store_put h) v vd)"

definition store_scope :: "store \<Rightarrow> string \<Rightarrow> vars" where
  "store_scope v h = map (\<lambda>e. (snd (fst e), snd e)) (filter (\<lambda>e. fst (fst e) = h) v)"

definition sample_modules :: "string \<Rightarrow> store module option" where
  "sample_modules n =
     (if n = ''echo'' then Some (\<lambda>args host task pl v. ((''hi'', ''''), v))
      else if n = ''fail'' then Some (\<lambda>args host task pl v. (('''', ''boom''), v))
      else if n = ''mark'' then
        Some (\<lambda>args host task pl v. ((''ok'', ''''), snd (store_merge v host [(''done'', VBool True)])))
      else None)"

definition sample_env :: "Play list \<Rightarrow> store env" where
  "sample_env pb =
     \<lparr>project_New = (\<lambda>p. Inr (Inr pb)),
      IsEnabled = (\<lambda>tags ts sk. True),
      Get_Hostnames = (\<lambda>v hs. Inr hs),
      Get_AllVariable = (\<lambda>v h. Inr (store_scope v h)),
      Merge_RuntimeVariable = store_merge,
      Merge_RemoteVariable = store_merge,
      getGatherFact = (\<lambda>v h. Inr []),
      GroupHostBySerial = (\<lambda>hosts serial. Inr [hosts]),
      SetControllerReference = (\<lambda>p t. None),
      json_Marshal = (\<lambda>a. Inr ''{}''),
      FindModule = sample_modules,
      client_Create = (\<lambda>ts t. Inr (t_GenerateName t @ t_SpecName t)),
      client_Status_Update = (\<lambda>t. None),
      ParseBool = (\<lambda>scope exprs. Inr (list_all (\<lambda>x. map_of scope x = Some (VBool True)) exprs)),
      Extension2Slice = (\<lambda>scope raw. case raw of VList xs \<Rightarrow> xs | _ \<Rightarrow> [])\<rparr>"

definition leaf :: "string \<Rightarrow> string \<Rightarrow> Block" where
  "leaf name m = Block name [] [] [] False [] [] [] '''' [(m, VNil)] [] '''' None False"

definition sample_pipeline :: Pipeline where
  "sample_pipeline =
     \<lparr>p_Name = ''pl'', p_Namespace = ''default'', p_Tags = [], p_SkipTags = [],
      p_Phase = PipelinePhasePending, p_PhaseWrites = [],
      p_Total = 0, p_Success = 0, p_Ignored = 0, p_Failed = 0,
      p_FailedDetail = [], p_Reason = ''''\<rparr>"

definition sample_executor :: "store executor" where
  "sample_executor = \<lparr>pipeline = sample_pipeline, variable = [], created = []\<rparr>"

definition sample_play :: "Block list \<Rightarrow> Block list \<Rightarrow> Play" where
  "sample_play tasks post =
     \<lparr>pl_Name = ''play'', pl_Tags = [], pl_Hosts = [''h1''], pl_GatherFacts = False,
      pl_RunOnce = False, pl_Serial = [], pl_Vars = [], pl_PreTasks = [], pl_Roles = [],
      pl_Tasks = tasks, pl_PostTasks = post\<rparr>"

definition outcome ::
  "(error option \<times> 'v executor) option
     \<Rightarrow> (error option \<times> string list \<times> PipelinePhase \<times> PipelinePhase list) option" where
  "outcome r =
     map_option (\<lambda>(err, e). (err, map t_SpecName (created e), p_Phase (pipeline e),
                              p_PhaseWrites (pipeline e))) r"

definition sample_task :: "string \<Rightarrow> string \<Rightarrow> Task" where
  "sample_task name m = (MarshalBlock '''' [''h1''] [] (leaf name m))\<lparr>t_ModuleName := m\<rparr>"

definition task_outcome ::
  "error + (Task \<times> store) \<Rightarrow> (TaskPhase \<times> HostResult list list \<times> store) option" where
  "task_outcome r =
     (case r of Inl err \<Rightarrow> None | Inr (t, v) \<Rightarrow> Some (t_Phase t, t_Conditions t, v))"

definition composite :: "string \<Rightarrow> Block list \<Rightarrow> Block list \<Rightarrow> Block list \<Rightarrow> Block" where
  "composite name nested rescue always =
     Block name [] [] [] False nested rescue always '''' [] [] '''' None False"

text \<open>
  Two stores that refuse a merge: one refuses the merge of a single key \<open>k\<close>, the
  other refuses the merge that clears \<open>item\<close>.
\<close>

definition readonly_key :: "string \<Rightarrow> store \<Rightarrow> string \<Rightarrow> vars \<Rightarrow> string option \<times> store" where
  "readonly_key k v h vd =
     (if map fst vd = [k] then (Some ''read-only'', v) else store_merge v h vd)"

definition readonly_nil :: "store \<Rightarrow> string \<Rightarrow> vars \<Rightarrow> string option \<times> store" where
  "readonly_nil v h vd =
     (if vd = [(''item'', VNil)] then (Some ''read-only'', v) else store_merge v h vd)"

definition sample_holds_item :: "store \<Rightarrow> string \<Rightarrow> bool" where
  "sample_holds_item v h = ((h, ''item'') \<in> fst ` set v)"

section \<open>Properties\<close>

declare drive_task.simps [code]

subsection \<open>The task runner always ends in a terminal phase\<close>

lemma collect_complete:
  "IsComplete (fst tc) \<Longrightarrow> IsComplete (fst (collect ds tc))"
proof (induction ds arbitrary: tc)
  case Nil
  then show ?case by (cases tc) simp
next
  case (Cons d ds)
  obtain task cd where tc: "tc = (task, cd)" by (cases tc)
  show ?case unfolding tc collect.simps
    using Cons.prems by (intro Cons.IH) (simp add: tc IsComplete_def)
qed

lemma executeTask_complete:
  assumes "executeTask env task pl v = Inr (task', v')"
  shows "IsComplete task'"
proof -
  from assms obtain datas tk cd where
    c: "collect datas (task\<lparr>t_Phase := TaskPhaseSuccess\<rparr>, []) = (tk, cd)"
    and t': "task' = tk\<lparr>t_Conditions := t_Conditions tk @ [cd]\<rparr>"
    by (auto simp: executeTask_def split: sum.splits prod.splits)
  have "IsComplete (fst (collect datas (task\<lparr>t_Phase := TaskPhaseSuccess\<rparr>, [])))"
    by (rule collect_complete) (simp add: IsComplete_def)
  then show ?thesis by (simp add: c t' IsComplete_def)
qed

lemma drive_task_once:
  "drive_task env task e =
     (case executeTask env (task\<lparr>t_Phase := TaskPhaseRunning\<rparr>) (pipeline e) (variable e) of
        Inl err \<Rightarrow> Some (Some err, task\<lparr>t_Phase := TaskPhaseRunning\<rparr>, e)
      | Inr (task', v') \<Rightarrow>
          (case client_Status_Update env task' of
             Some err \<Rightarrow> Some (Some (Error err), task', e\<lparr>variable := v'\<rparr>)
           | None \<Rightarrow> Some (None, task', e\<lparr>variable := v'\<rparr>)))"
  by (subst drive_task.simps) (auto split: sum.splits option.splits dest: executeTask_complete)

subsection \<open>A rule for the walker and the play driver\<close>

text \<open>
  Every walk returns. What holds of the executor before a walk (\<open>P\<close>) and what holds
  of its result (\<open>Q\<close>) need only be checked for the leaf case, for a change of the
  variable store and for a return that leaves the executor as it is.
\<close>

lemma execBlock_total_rule:
  assumes leaf: "\<And>hosts role when at e.
            P e \<Longrightarrow> \<exists>r e'. exec_leaf env hosts role when at e = Some (r, e') \<and> Q r e'"
    and cont: "\<And>e. Q None e \<Longrightarrow> P e"
    and var: "\<And>e v. P e \<Longrightarrow> P (e\<lparr>variable := v\<rparr>)"
    and stay: "\<And>e r. P e \<Longrightarrow> Q r e"
  shows "P e \<Longrightarrow> \<exists>r e'. execBlock env hosts role when bs e = Some (r, e') \<and> Q r e'"
  using leaf
proof (induction env hosts role "when" bs e rule: execBlock.induct)
  case (1 env hosts role "when" e)
  then show ?case using stay by simp
next
  case (2 env hosts role "when" name tags bwhen bvars runonce nested rescue always incl
          unknown fw reg lp ign rest e)
  let ?B = "Block name tags bwhen bvars runonce nested rescue always incl unknown fw reg lp ign"
  note Pe = "2.prems"(1)
  note lf = "2.prems"(2)
  show ?case
  proof (cases "IsEnabled env tags (p_Tags (pipeline e)) (p_SkipTags (pipeline e))")
    case False
    from "2.IH"(1)[OF False Pe lf] False show ?thesis by simp
  next
    case en: True
    show ?thesis
    proof (cases "if runonce then (case hosts of [] \<Rightarrow> None | h # _ \<Rightarrow> Some [h]) else Some hosts")
      case None
      with en have "execBlock env hosts role when (?B # rest) e = Some (Some Panic, e)" by simp
      with Pe stay show ?thesis by simp
    next
      case hs: (Some hosts')
      obtain x y where mv: "mergeVariable env bvars hosts' (variable e) = (x, y)"
        by (cases "mergeVariable env bvars hosts' (variable e)")
      let ?e0 = "e\<lparr>variable := y\<rparr>"
      have P0: "P ?e0" using Pe var by simp
      show ?thesis
      proof (cases x)
        case (Some err)
        with en hs mv
        have "execBlock env hosts role when (?B # rest) e = Some (Some (Error err), ?e0)" by simp
        with P0 stay show ?thesis by simp
      next
        case xn: None
        let ?mid = "(if nested \<noteq> [] then
                        (case execBlock env hosts' role (when @ bwhen) nested ?e0 of
                           None \<Rightarrow> None
                         | Some (Some err, e1) \<Rightarrow> Some (Some err, e1)
                         | Some (None, e1) \<Rightarrow>
                             (case
                                (if p_Phase (pipeline e1) = PipelinePhaseFailed \<and> rescue \<noteq> []
                                 then execBlock env hosts' role (when @ bwhen) rescue e1
                                 else Some (None, e1)) of
                                None \<Rightarrow> None
                              | Some (Some err, e2) \<Rightarrow> Some (Some err, e2)
                              | Some (None, e2) \<Rightarrow>
                                  (if always \<noteq> []
                                   then execBlock env hosts' role (when @ bwhen) always e2
                                   else Some (None, e2))))
                      else if incl \<noteq> '''' then Some (None, ?e0)
                      else exec_leaf env hosts' role when ?B ?e0)"
        have run: "execBlock env hosts role when (?B # rest) e =
                    (case ?mid of None \<Rightarrow> None
                     | Some (Some err, e3) \<Rightarrow> Some (Some err, e3)
                     | Some (None, e3) \<Rightarrow> execBlock env hosts role when rest e3)"
          using en hs mv xn by simp
        have "\<exists>rm em. ?mid = Some (rm, em) \<and> Q rm em"
        proof (cases "nested \<noteq> []")
          case ne: True
          from "2.IH"(2)[OF _ hs mv[symmetric] xn ne P0 lf] en obtain rn en' where
            n: "execBlock env hosts' role (when @ bwhen) nested ?e0 = Some (rn, en')"
            and Qn: "Q rn en'" by auto
          show ?thesis
          proof (cases rn)
            case (Some err)
            with ne n Qn show ?thesis by simp
          next
            case rnn: None
            have Pn: "P en'" using Qn rnn cont by simp
            let ?resc = "(if p_Phase (pipeline en') = PipelinePhaseFailed \<and> rescue \<noteq> []
                          then execBlock env hosts' role (when @ bwhen) rescue en'
                          else Some (None, en'))"
            have "\<exists>rr er. ?resc = Some (rr, er) \<and> Q rr er"
            proof (cases "p_Phase (pipeline en') = PipelinePhaseFailed \<and> rescue \<noteq> []")
              case c: True
              from "2.IH"(3)[OF _ hs mv[symmetric] xn ne n refl rnn c Pn lf] en c
              show ?thesis by simp
            next
              case False
              with Qn rnn show ?thesis by simp
            qed
            then obtain rr er where rs: "?resc = Some (rr, er)" and Qr: "Q rr er" by blast
            show ?thesis
            proof (cases rr)
              case (Some err)
              with ne n rnn rs Qr show ?thesis by simp
            next
              case rrn: None
              have Pr: "P er" using Qr rrn cont by simp
              show ?thesis
              proof (cases "always \<noteq> []")
                case al: True
                from "2.IH"(4)[OF _ hs mv[symmetric] xn ne n refl rnn rs refl rrn al Pr lf] en
                obtain ra ea where
                  "execBlock env hosts' role (when @ bwhen) always er = Some (ra, ea)" "Q ra ea"
                  by auto
                with ne n rnn rs rrn al show ?thesis by simp
              next
                case False
                with ne n rnn rs rrn Qr show ?thesis by simp
              qed
            qed
          qed
        next
          case nn: False
          show ?thesis
          proof (cases "incl \<noteq> ''''")
            case True
            with nn P0 stay show ?thesis by simp
          next
            case False
            with nn lf[OF P0, of hosts' role "when" ?B] show ?thesis by simp
          qed
        qed
        then obtain rm em where mid: "?mid = Some (rm, em)" and Qm: "Q rm em" by blast
        show ?thesis
        proof (cases rm)
          case (Some err)
          with run mid Qm show ?thesis by simp
        next
          case rmn: None
          have Pm: "P em" using Qm rmn cont by simp
          from "2.IH"(5)[OF _ hs mv[symmetric] xn mid refl rmn Pm lf] en run mid rmn
          show ?thesis by simp
        qed
      qed
    qed
  qed
qed

lemma exec_roles_total_rule:
  assumes leaf: "\<And>hosts role when at e.
            P e \<Longrightarrow> \<exists>r e'. exec_leaf env hosts role when at e = Some (r, e') \<and> Q r e'"
    and cont: "\<And>e. Q None e \<Longrightarrow> P e"
    and var: "\<And>e v. P e \<Longrightarrow> P (e\<lparr>variable := v\<rparr>)"
    and stay: "\<And>e r. P e \<Longrightarrow> Q r e"
  shows "P e \<Longrightarrow> \<exists>r e'. exec_roles env serials roles e = Some (r, e') \<and> Q r e'"
proof (induction roles arbitrary: e)
  case Nil
  then show ?case using stay by simp
next
  case (Cons role roles)
  obtain x y where mv: "mergeVariable env (r_Vars role) serials (variable e) = (x, y)"
    by (cases "mergeVariable env (r_Vars role) serials (variable e)")
  have P0: "P (e\<lparr>variable := y\<rparr>)" using Cons.prems var by simp
  show ?case
  proof (cases x)
    case (Some err)
    with mv P0 stay show ?thesis by simp
  next
    case None
    from execBlock_total_rule[of P env Q, OF leaf cont var stay P0]
    obtain rb eb where
      b: "execBlock env serials (r_Role role) (r_When role) (r_Block role) (e\<lparr>variable := y\<rparr>)
            = Some (rb, eb)" and Qb: "Q rb eb"
      by blast
    show ?thesis
    proof (cases rb)
      case (Some err)
      with mv None b Qb show ?thesis by simp
    next
      case rn: None
      with Qb cont have "P eb" by simp
      from Cons.IH[OF this] mv None b rn show ?thesis by simp
    qed
  qed
qed

lemma exec_batch_total_rule:
  assumes leaf: "\<And>hosts role when at e.
            P e \<Longrightarrow> \<exists>r e'. exec_leaf env hosts role when at e = Some (r, e') \<and> Q r e'"
    and cont: "\<And>e. Q None e \<Longrightarrow> P e"
    and var: "\<And>e v. P e \<Longrightarrow> P (e\<lparr>variable := v\<rparr>)"
    and stay: "\<And>e r. P e \<Longrightarrow> Q r e"
    and Pe: "P e"
  shows "\<exists>r e'. exec_batch env play serials e = Some (r, e') \<and> Q r e'"
proof (cases "length serials = 0")
  case True
  with Pe stay show ?thesis by (simp add: exec_batch_def)
next
  case ne: False
  obtain x y where mv: "mergeVariable env (pl_Vars play) serials (variable e) = (x, y)"
    by (cases "mergeVariable env (pl_Vars play) serials (variable e)")
  have P0: "P (e\<lparr>variable := y\<rparr>)" using Pe var by simp
  show ?thesis
  proof (cases x)
    case (Some err)
    with ne mv P0 stay show ?thesis by (simp add: exec_batch_def)
  next
    case xn: None
    from execBlock_total_rule[of P env Q, OF leaf cont var stay P0] obtain r1 e1 where
      s1: "execBlock env serials '''' [] (pl_PreTasks play) (e\<lparr>variable := y\<rparr>) = Some (r1, e1)"
      and Q1: "Q r1 e1" by blast
    show ?thesis
    proof (cases r1)
      case (Some err)
      with ne mv xn s1 Q1 show ?thesis by (simp add: exec_batch_def)
    next
      case n1: None
      with Q1 cont have P1: "P e1" by simp
      from exec_roles_total_rule[of P env Q, OF leaf cont var stay P1] obtain r2 e2 where
        s2: "exec_roles env serials (pl_Roles play) e1 = Some (r2, e2)" and Q2: "Q r2 e2"
        by blast
      show ?thesis
      proof (cases r2)
        case (Some err)
        with ne mv xn s1 n1 s2 Q2 show ?thesis by (simp add: exec_batch_def)
      next
        case n2: None
        with Q2 cont have P2: "P e2" by simp
        from execBlock_total_rule[of P env Q, OF leaf cont var stay P2] obtain r3 e3 where
          s3: "execBlock env serials '''' [] (pl_Tasks play) e2 = Some (r3, e3)"
          and Q3: "Q r3 e3" by blast
        show ?thesis
        proof (cases r3)
          case (Some err)
          with ne mv xn s1 n1 s2 n2 s3 Q3 show ?thesis by (simp add: exec_batch_def)
        next
          case n3: None
          with Q3 cont have P3: "P e3" by simp
          from execBlock_total_rule[of P env Q, OF leaf cont var stay P3] obtain r4 e4 where
            "execBlock env serials '''' [] (pl_Tasks play) e3 = Some (r4, e4)" "Q r4 e4"
            by blast
          with ne mv xn s1 n1 s2 n2 s3 n3 show ?thesis by (simp add: exec_batch_def)
        qed
      qed
    qed
  qed
qed

lemma exec_batches_total_rule:
  assumes leaf: "\<And>hosts role when at e.
            P e \<Longrightarrow> \<exists>r e'. exec_leaf env hosts role when at e = Some (r, e') \<and> Q r e'"
    and cont: "\<And>e. Q None e \<Longrightarrow> P e"
    and var: "\<And>e v. P e \<Longrightarrow> P (e\<lparr>variable := v\<rparr>)"
    and stay: "\<And>e r. P e \<Longrightarrow> Q r e"
  shows "P e \<Longrightarrow> \<exists>r e'. exec_batches env play batchHosts e = Some (r, e') \<and> Q r e'"
proof (induction batchHosts arbitrary: e)
  case Nil
  then show ?case using stay by simp
next
  case (Cons serials batchHosts)
  from exec_batch_total_rule[of P env Q, OF leaf cont var stay Cons.prems] obtain r1 e1 where
    s1: "exec_batch env play serials e = Some (r1, e1)" and Q1: "Q r1 e1" by blast
  show ?case
  proof (cases r1)
    case (Some err)
    with s1 Q1 show ?thesis by simp
  next
    case None
    with Q1 cont have "P e1" by simp
    from Cons.IH[OF this] s1 None show ?thesis by simp
  qed
qed

lemma exec_play_total_rule:
  assumes leaf: "\<And>hosts role when at e.
            P e \<Longrightarrow> \<exists>r e'. exec_leaf env hosts role when at e = Some (r, e') \<and> Q r e'"
    and cont: "\<And>e. Q None e \<Longrightarrow> P e"
    and var: "\<And>e v. P e \<Longrightarrow> P (e\<lparr>variable := v\<rparr>)"
    and stay: "\<And>e r. P e \<Longrightarrow> Q r e"
    and Pe: "P e"
  shows "\<exists>r e'. exec_play env play e = Some (r, e') \<and> Q r e'"
proof (cases "IsEnabled env (pl_Tags play) (p_Tags (pipeline e)) (p_SkipTags (pipeline e))")
  case False
  with stay[OF Pe] show ?thesis by (simp add: exec_play_def)
next
  case en: True
  show ?thesis
  proof (cases "case Get_Hostnames env (variable e) (pl_Hosts play) of
                  Inl err \<Rightarrow> [] | Inr ahn \<Rightarrow> ahn")
    case Nil
    with en stay[OF Pe] show ?thesis by (simp add: exec_play_def)
  next
    case hosts: (Cons h hs)
    obtain x v' where
      g: "(if pl_GatherFacts play then gather_facts env (h # hs) (variable e)
           else (None, variable e)) = (x, v')"
      by (cases "if pl_GatherFacts play then gather_facts env (h # hs) (variable e)
                 else (None, variable e)")
    have P0: "P (e\<lparr>variable := v'\<rparr>)" using Pe var by simp
    show ?thesis
    proof (cases x)
      case (Some err)
      have "exec_play env play e = Some (Some (Error err), e\<lparr>variable := v'\<rparr>)"
        unfolding exec_play_def using en hosts g Some
        by (simp del: gather_facts.simps)
      with stay[OF P0] show ?thesis by simp
    next
      case xn: None
      show ?thesis
      proof (cases "if pl_RunOnce play then Inr [[h]]
                    else GroupHostBySerial env (h # hs) (pl_Serial play)")
        case (Inl err)
        have "exec_play env play e = Some (Some (Error err), e\<lparr>variable := v'\<rparr>)"
          unfolding exec_play_def using en hosts g xn Inl
          by (simp del: gather_facts.simps)
        with stay[OF P0] show ?thesis by simp
      next
        case (Inr batchHosts)
        have "exec_play env play e = exec_batches env play batchHosts (e\<lparr>variable := v'\<rparr>)"
          unfolding exec_play_def using en hosts g xn Inr
          by (simp del: gather_facts.simps exec_batches.simps)
        with exec_batches_total_rule[of P env Q, OF leaf cont var stay P0]
        show ?thesis by simp
      qed
    qed
  qed
qed

lemma exec_plays_total_rule:
  assumes leaf: "\<And>hosts role when at e.
            P e \<Longrightarrow> \<exists>r e'. exec_leaf env hosts role when at e = Some (r, e') \<and> Q r e'"
    and cont: "\<And>e. Q None e \<Longrightarrow> P e"
    and var: "\<And>e v. P e \<Longrightarrow> P (e\<lparr>variable := v\<rparr>)"
    and stay: "\<And>e r. P e \<Longrightarrow> Q r e"
  shows "P e \<Longrightarrow> \<exists>r e'. exec_plays env pb e = Some (r, e') \<and> Q r e'"
proof (induction pb arbitrary: e)
  case Nil
  then show ?case using stay by simp
next
  case (Cons play plays)
  from exec_play_total_rule[of P env Q, OF leaf cont var stay Cons.prems] obtain r1 e1 where
    s1: "exec_play env play e = Some (r1, e1)" and Q1: "Q r1 e1" by blast
  show ?case
  proof (cases r1)
    case (Some err)
    with s1 Q1 show ?thesis by simp
  next
    case None
    with Q1 cont have "P e1" by simp
    from Cons.IH[OF this] s1 None show ?thesis by simp
  qed
qed

lemma Exec_body_total_rule:
  assumes leaf: "\<And>hosts role when at e.
            P e \<Longrightarrow> \<exists>r e'. exec_leaf env hosts role when at e = Some (r, e') \<and> Q r e'"
    and cont: "\<And>e. Q None e \<Longrightarrow> P e"
    and var: "\<And>e v. P e \<Longrightarrow> P (e\<lparr>variable := v\<rparr>)"
    and stay: "\<And>e r. P e \<Longrightarrow> Q r e"
    and Pe: "P e"
  shows "\<exists>r e'. Exec_body env e = Some (r, e') \<and> Q r e'"
  unfolding Exec_body_def
  using stay[OF Pe] exec_plays_total_rule[of P env Q, OF leaf cont var stay Pe]
  by (auto split: sum.splits)

subsection \<open>What the leaf case does\<close>

lemma complete_module_result:
  "complete_module env fs task = Inr task1 \<Longrightarrow>
   t_ModuleName task1 = t_ModuleName task \<or> FindModule env (t_ModuleName task1) \<noteq> None"
  by (induction fs) (auto split: sum.splits option.splits)

lemma complete_module_no_match:
  "\<forall>n \<in> fst ` set fs. FindModule env n = None \<Longrightarrow>
   complete_module env fs task = Inr task1 \<Longrightarrow> task1 = task"
  by (induction fs) (auto split: sum.splits option.splits)

lemma complete_module_marshalled:
  "\<forall>n \<in> fst ` set fs. FindModule env n = None \<Longrightarrow>
   \<forall>a \<in> snd ` set fs. \<exists>d. json_Marshal env a = Inr d \<Longrightarrow>
   complete_module env fs task = Inr task"
  by (induction fs) (auto split: sum.splits option.splits)

lemma finish_task_fields [simp]:
  "created (snd (finish_task task e)) = created e"
  "variable (snd (finish_task task e)) = variable e"
  by (simp_all add: finish_task_def)

lemma exec_leaf_outcome:
  "\<exists>r e'. exec_leaf env hosts role when at e = Some (r, e') \<and>
     (created e' = created e \<or>
      (\<exists>t. created e' = created e @ [t] \<and> t_ModuleName t \<noteq> ''''
           \<and> FindModule env (t_ModuleName t) \<noteq> None)) \<and>
     ((r \<noteq> None \<and> pipeline e' = pipeline e) \<or>
      (\<exists>task. IsComplete task \<and> r = fst (finish_task task e)
              \<and> pipeline e' = pipeline (snd (finish_task task e))))"
proof -
  let ?tk = "(MarshalBlock role hosts (when @ b_When at) at)
                   \<lparr>t_GenerateName := p_Name (pipeline e) @ ''-'',
                    t_Namespace := p_Namespace (pipeline e)\<rparr>"
  let ?tko = "?tk\<lparr>t_Owner := Some (p_Name (pipeline e))\<rparr>"
  show ?thesis
  proof (cases "SetControllerReference env (pipeline e) ?tk")
    case (Some err)
    then show ?thesis by (simp add: exec_leaf_def Let_def)
  next
    case ref: None
    show ?thesis
    proof (cases "complete_module env (b_UnknownFiled at) ?tko")
      case (Inl err)
      with ref show ?thesis by (simp add: exec_leaf_def Let_def)
    next
      case cm: (Inr task1)
      show ?thesis
      proof (cases "t_ModuleName task1 = ''''")
        case True
        with ref cm show ?thesis by (simp add: exec_leaf_def Let_def)
      next
        case nm: False
        from complete_module_result[OF cm] nm
        have reg: "FindModule env (t_ModuleName task1) \<noteq> None"
          by (auto simp: MarshalBlock_def)
        let ?e1 = "e\<lparr>created := created e @ [task1]\<rparr>"
        show ?thesis
        proof (cases "client_Create env (created e) task1")
          case (Inl err)
          with ref cm nm reg show ?thesis by (simp add: exec_leaf_def Let_def)
        next
          case cr: (Inr name)
          let ?t = "task1\<lparr>t_Name := name\<rparr>"
          have leaf: "exec_leaf env hosts role when at e =
                (case drive_task env ?t ?e1 of
                            None \<Rightarrow> None
                          | Some (Some err, task2, e2) \<Rightarrow> Some (Some err, e2)
                          | Some (None, task2, e2) \<Rightarrow> Some (finish_task task2 e2))"
            using ref cm nm cr by (simp add: exec_leaf_def Let_def)
          show ?thesis
          proof (cases "executeTask env (?t\<lparr>t_Phase := TaskPhaseRunning\<rparr>) (pipeline ?e1) (variable ?e1)")
            case (Inl err)
            with leaf nm reg show ?thesis by (simp add: drive_task_once)
          next
            case (Inr tv)
            obtain task2 v2 where tv: "tv = (task2, v2)" by (cases tv)
            have c2: "IsComplete task2" by (rule executeTask_complete[OF Inr[unfolded tv]])
            show ?thesis
            proof (cases "client_Status_Update env task2")
              case (Some err)
              with leaf Inr tv nm reg show ?thesis by (simp add: drive_task_once)
            next
              case None
              obtain rf ef where
                ft: "finish_task task2 (?e1\<lparr>variable := v2\<rparr>) = (rf, ef)"
                by (cases "finish_task task2 (?e1\<lparr>variable := v2\<rparr>)")
              from leaf Inr tv None ft
              have run: "exec_leaf env hosts role when at e = Some (rf, ef)"
                by (simp add: drive_task_once)
              have cr': "created ef = created e @ [task1]"
                using finish_task_fields(1)[of task2 "?e1\<lparr>variable := v2\<rparr>"] ft by simp
              have "rf = fst (finish_task task2 e)"
                "pipeline ef = pipeline (snd (finish_task task2 e))"
                using ft by (auto simp: finish_task_def split: if_splits)
              with run cr' c2 nm reg show ?thesis by blast
            qed
          qed
        qed
      qed
    qed
  qed
qed

subsection \<open>The task runner returns\<close>

lemma executeModule_returns:
  "FindModule env (t_ModuleName task) \<noteq> None \<Longrightarrow> executeModule env task host pl v \<noteq> Inl p"
  by (auto simp: executeModule_def call_module_def split: sum.splits option.splits)

lemma run_items_returns:
  "FindModule env (t_ModuleName task) \<noteq> None \<Longrightarrow>
   run_items env task host pl items out v \<noteq> Inl p"
proof (induction items arbitrary: out v)
  case Nil
  then show ?case by simp
next
  case (Cons item rest)
  show ?case
    using executeModule_returns[OF Cons.prems] Cons.IH[OF Cons.prems]
    by (auto split: prod.splits option.splits sum.splits)
qed

lemma host_body_returns:
  "FindModule env (t_ModuleName task) \<noteq> None \<Longrightarrow> host_body env task host pl v \<noteq> Inl p"
  using run_items_returns[of env task host pl]
  by (auto simp: host_body_def host_loop_def execLoop_def split: sum.splits option.splits)

lemma run_host_returns:
  "FindModule env (t_ModuleName task) \<noteq> None \<Longrightarrow> run_host env task pl host v \<noteq> Inl p"
  using host_body_returns[of env task host pl v]
  by (auto simp: run_host_def split: sum.splits)

lemma run_hosts_returns:
  "FindModule env (t_ModuleName task) \<noteq> None \<Longrightarrow> run_hosts env task pl hosts v \<noteq> Inl p"
proof (induction hosts arbitrary: v)
  case Nil
  then show ?case by simp
next
  case (Cons h hs)
  show ?case
    using run_host_returns[OF Cons.prems] Cons.IH[OF Cons.prems]
    by (auto split: sum.splits)
qed

lemma collect_Conditions:
  "t_Conditions (fst (collect ds tc)) = t_Conditions (fst tc)"
proof (induction ds arbitrary: tc)
  case Nil
  then show ?case by (cases tc) simp
next
  case (Cons d ds)
  obtain task cd where tc: "tc = (task, cd)" by (cases tc)
  show ?case unfolding tc collect.simps
    by (subst Cons.IH) simp
qed

lemma collect_RestartCount:
  "t_RestartCount (fst (collect ds tc)) = t_RestartCount (fst tc)"
proof (induction ds arbitrary: tc)
  case Nil
  then show ?case by (cases tc) simp
next
  case (Cons d ds)
  obtain task cd where tc: "tc = (task, cd)" by (cases tc)
  show ?case unfolding tc collect.simps
    by (subst Cons.IH) simp
qed

lemma executeTask_returns:
  assumes "FindModule env (t_ModuleName task) \<noteq> None"
  shows "\<exists>task' v'. executeTask env task pl v = Inr (task', v')
           \<and> IsComplete task'
           \<and> t_RestartCount task' = t_RestartCount task
           \<and> length (t_Conditions task') = length (t_Conditions task) + 1"
proof -
  from run_hosts_returns[OF assms] obtain datas v1 where
    rh: "run_hosts env task pl (t_Hosts task) v = Inr (datas, v1)"
    by (cases "run_hosts env task pl (t_Hosts task) v") auto
  obtain tk cd where c: "collect datas (task\<lparr>t_Phase := TaskPhaseSuccess\<rparr>, []) = (tk, cd)"
    by (cases "collect datas (task\<lparr>t_Phase := TaskPhaseSuccess\<rparr>, [])")
  have run: "executeTask env task pl v = Inr (tk\<lparr>t_Conditions := t_Conditions tk @ [cd]\<rparr>, v1)"
    using rh c by (simp add: executeTask_def)
  have rc: "t_RestartCount tk = t_RestartCount task"
    using collect_RestartCount[of datas "(task\<lparr>t_Phase := TaskPhaseSuccess\<rparr>, [])"] c by simp
  have cs: "t_Conditions tk = t_Conditions task"
    using collect_Conditions[of datas "(task\<lparr>t_Phase := TaskPhaseSuccess\<rparr>, [])"] c by simp
  show ?thesis
    using run rc cs executeTask_complete[OF run] by simp
qed

subsection \<open>The sections of a play\<close>

text \<open>No walk of a batch reads the PostTasks of the play.\<close>

lemma exec_batch_PostTasks_unread:
  "exec_batch env (play\<lparr>pl_PostTasks := post\<rparr>) serials e = exec_batch env play serials e"
  by (simp add: exec_batch_def split: prod.splits option.splits)

text \<open>
  C4. The play driver is to walk PreTasks, the roles, Tasks and then the play's
  PostTasks. Run on a play whose Tasks are the one leaf \<open>t1\<close> and whose PostTasks are
  the one leaf \<open>p1\<close>, the driver hands the client \<open>t1\<close> twice and \<open>p1\<close> never: the
  fourth walk is a second walk of Tasks.
\<close>

theorem C4_post_tasks_walk_is_tasks_again:
  "outcome (Exec (sample_env [sample_play [leaf ''t1'' ''echo''] [leaf ''p1'' ''echo'']])
              sample_executor)
   = Some (None, [''t1'', ''t1''], PipelinePhaseSucceed,
           [PipelinePhaseRunning, PipelinePhaseSucceed])"
  by code_simp

subsection \<open>Rescue and always\<close>

text \<open>
  An error of the nested walk is returned at once, whatever the rescue and the always
  blocks are.
\<close>

lemma execBlock_nested_error:
  assumes "IsEnabled env tags (p_Tags (pipeline e)) (p_SkipTags (pipeline e))"
    and "\<not> runonce"
    and "nested \<noteq> []"
    and "mergeVariable env bvars hosts (variable e) = (None, v')"
    and "execBlock env hosts role (when @ bwhen) nested (e\<lparr>variable := v'\<rparr>) = Some (Some err, e1)"
  shows "execBlock env hosts role when
           (Block name tags bwhen bvars runonce nested rescue always incl unknown fw reg lp ign
              # rest) e
         = Some (Some err, e1)"
  using assms by simp

text \<open>
  C1. When the nested blocks of a composite block fail, the walker is to walk the
  rescue blocks and then the always blocks before the failure reaches the caller. Run
  on a composite block whose nested leaf \<open>n\<close> fails, with a rescue leaf \<open>r\<close> and an
  always leaf \<open>a\<close>, the walker returns the failure of \<open>n\<close> at once: \<open>n\<close> is the only
  task handed to the client, neither \<open>r\<close> nor \<open>a\<close> is walked.
\<close>

theorem C1_failed_nested_skips_rescue_and_always:
  "outcome (Exec (sample_env [sample_play
              [composite ''b'' [leaf ''n'' ''fail''] [leaf ''r'' ''echo''] [leaf ''a'' ''echo'']] []])
              sample_executor)
   = Some (Some (Error ''task pl-n run failed''), [''n''], PipelinePhaseFailed,
           [PipelinePhaseRunning, PipelinePhaseFailed, PipelinePhaseSucceed,
            PipelinePhaseFailed])"
  by code_simp

subsection \<open>Register and the host result\<close>

text \<open>A failed register merge ends the deferred function before the send.\<close>

lemma host_deferred_register_fails:
  assumes "t_Register task \<noteq> ''''"
    and "Merge_RuntimeVariable env v host
           [(t_Register task, VMap [(''stdout'', VStr (fst out)), (''stderr'', VStr (snd out))])]
         = (Some err, v')"
  shows "host_deferred env task host out v = (None, v')"
  using assms by (simp add: host_deferred_def)

text \<open>
  C5. When the merge of the register map fails, a host result that carries the failure
  message as stderr is still to be emitted. Run on a task with register \<open>r\<close> and one
  host, against a store that refuses the merge of \<open>r\<close>, the task runner collects no
  host result at all (the one condition appended is empty) and the task ends
  Succeeded.
\<close>

theorem C5_failed_register_merge_emits_no_result:
  "task_outcome (executeTask ((sample_env [])\<lparr>Merge_RuntimeVariable := readonly_key ''r''\<rparr>)
                   ((sample_task ''t'' ''echo'')\<lparr>t_Register := ''r''\<rparr>) sample_pipeline [])
   = Some (TaskPhaseSuccess, [[]], [])"
  by code_simp

subsection \<open>Counter accounting\<close>

lemma finish_task_balanced:
  "IsComplete task \<Longrightarrow>
   p_Total (pipeline e) = p_Success (pipeline e) + p_Ignored (pipeline e) + p_Failed (pipeline e) \<Longrightarrow>
   p_Total (pipeline (snd (finish_task task e)))
     = p_Success (pipeline (snd (finish_task task e))) + p_Ignored (pipeline (snd (finish_task task e)))
       + p_Failed (pipeline (snd (finish_task task e)))"
  by (auto simp: finish_task_def count_task_def fail_pipeline_def set_phase_def IsComplete_def
        IsFailed_def)

text \<open>
  C8. For every playbook and inventory (every environment), \<open>Exec\<close> returns, and if the
  counters of the pipeline add up at entry (as they do on a fresh pipeline), they add
  up at return: total = success + ignored + failed.
\<close>

theorem C8_counter_accounting:
  assumes "p_Total (pipeline e)
             = p_Success (pipeline e) + p_Ignored (pipeline e) + p_Failed (pipeline e)"
  shows "\<exists>r e'. Exec env e = Some (r, e') \<and>
           p_Total (pipeline e')
             = p_Success (pipeline e') + p_Ignored (pipeline e') + p_Failed (pipeline e')"
proof -
  let ?bal = "\<lambda>e::'a executor. p_Total (pipeline e)
             = p_Success (pipeline e) + p_Ignored (pipeline e) + p_Failed (pipeline e)"
  let ?e0 = "e\<lparr>pipeline := set_phase PipelinePhaseRunning (pipeline e)\<rparr>"
  have leaf: "\<exists>r e'. exec_leaf env hosts role when at e = Some (r, e') \<and> ?bal e'"
    if "?bal e" for hosts role "when" at and e :: "'a executor"
    using exec_leaf_outcome[of env hosts role "when" at e] that finish_task_balanced[of _ e]
    by auto
  have P0: "?bal ?e0" using assms by (simp add: set_phase_def)
  have "\<exists>r e'. Exec_body env ?e0 = Some (r, e') \<and> ?bal e'"
    by (rule Exec_body_total_rule[where P = ?bal and Q = "\<lambda>r. ?bal"]) (use leaf P0 in auto)
  then obtain r e1 where b: "Exec_body env ?e0 = Some (r, e1)" and bal: "?bal e1" by blast
  have "Exec env e = Some (r, e1\<lparr>pipeline := Exec_deferred (pipeline e1)\<rparr>)"
    using b by (simp add: Exec_def)
  moreover have "?bal (e1\<lparr>pipeline := Exec_deferred (pipeline e1)\<rparr>)"
    using bal by (simp add: Exec_deferred_def set_phase_def Let_def)
  ultimately show ?thesis by blast
qed

theorem C8_counter_accounting_witness:
  "\<exists>r e'. Exec (sample_env [sample_play [leaf ''t1'' ''echo'', leaf ''t2'' ''fail''] []])
             sample_executor = Some (r, e') \<and>
           p_Total (pipeline e')
             = p_Success (pipeline e') + p_Ignored (pipeline e') + p_Failed (pipeline e')"
  using C8_counter_accounting
          [of sample_executor "sample_env [sample_play [leaf ''t1'' ''echo'', leaf ''t2'' ''fail''] []]"]
  by (simp add: sample_executor_def sample_pipeline_def)

subsection \<open>The drive loop\<close>

text \<open>
  C10. For every task whose module is registered (the walker drives no other), every
  host list and every environment: the task runner returns, with the nil error, the
  task in one of the phases Succeeded, Ignored, Failed, its restart count untouched and
  one condition appended; and the drive loop returns after this one round with that
  task, its only error being the one of the status update that follows the round.
\<close>

theorem C10_task_runner_ends_in_one_round:
  assumes "FindModule env (t_ModuleName task) \<noteq> None"
  shows "\<exists>task' v'.
           executeTask env (task\<lparr>t_Phase := TaskPhaseRunning\<rparr>) (pipeline e) (variable e)
             = Inr (task', v')
           \<and> (t_Phase task' = TaskPhaseSuccess \<or> t_Phase task' = TaskPhaseIgnored
                \<or> t_Phase task' = TaskPhaseFailed)
           \<and> t_RestartCount task' = t_RestartCount task
           \<and> length (t_Conditions task') = length (t_Conditions task) + 1
           \<and> drive_task env task e
               = Some (map_option Error (client_Status_Update env task'), task',
                       e\<lparr>variable := v'\<rparr>)"
proof -
  have "FindModule env (t_ModuleName (task\<lparr>t_Phase := TaskPhaseRunning\<rparr>)) \<noteq> None"
    using assms by simp
  from executeTask_returns[OF this, of "pipeline e" "variable e"] obtain task' v' where
    run: "executeTask env (task\<lparr>t_Phase := TaskPhaseRunning\<rparr>) (pipeline e) (variable e)
            = Inr (task', v')"
    and c: "IsComplete task'"
    and rc: "t_RestartCount task' = t_RestartCount task"
    and cs: "length (t_Conditions task') = length (t_Conditions task) + 1"
    by auto
  have "drive_task env task e
          = Some (map_option Error (client_Status_Update env task'), task', e\<lparr>variable := v'\<rparr>)"
    using run by (simp add: drive_task_once split: option.splits)
  with run c rc cs show ?thesis by (auto simp: IsComplete_def)
qed

theorem C10_task_runner_ends_in_one_round_witness:
  "\<exists>task' v'.
     executeTask (sample_env []) ((sample_task ''t'' ''fail'')\<lparr>t_Phase := TaskPhaseRunning\<rparr>)
         (pipeline sample_executor) (variable sample_executor) = Inr (task', v')
     \<and> (t_Phase task' = TaskPhaseSuccess \<or> t_Phase task' = TaskPhaseIgnored
          \<or> t_Phase task' = TaskPhaseFailed)
     \<and> t_RestartCount task' = t_RestartCount (sample_task ''t'' ''fail'')
     \<and> length (t_Conditions task') = length (t_Conditions (sample_task ''t'' ''fail'')) + 1
     \<and> drive_task (sample_env []) (sample_task ''t'' ''fail'') sample_executor
         = Some (map_option Error (client_Status_Update (sample_env []) task'), task',
                 sample_executor\<lparr>variable := v'\<rparr>)"
  using C10_task_runner_ends_in_one_round
          [of "sample_env []" "sample_task ''t'' ''fail''" sample_executor]
  by (simp add: sample_env_def sample_task_def sample_modules_def)

subsection \<open>The assignments to the pipeline phase\<close>






subsection \<open>Failed-when\<close>

text \<open>
  C2 (the claim as stated fails). The task's failed-when names the variable \<open>done\<close>,
  which its module \<open>mark\<close> sets on the host. The module invocation returns stdout
  \<open>ok\<close> and an empty stderr, although failed-when parses true on the scope of the host
  after the invocation.
\<close>

theorem C2_counterexample:
  "t_FailedWhen ((sample_task ''t'' ''mark'')\<lparr>t_FailedWhen := [''done'']\<rparr>) \<noteq> []
   \<and> executeModule (sample_env []) ((sample_task ''t'' ''mark'')\<lparr>t_FailedWhen := [''done'']\<rparr>)
        ''h1'' sample_pipeline []
      = Inr ((''ok'', ''''), [((''h1'', ''done''), VBool True)])
   \<and> Get_AllVariable (sample_env []) [((''h1'', ''done''), VBool True)] ''h1''
      = Inr [(''done'', VBool True)]
   \<and> ParseBool (sample_env []) [(''done'', VBool True)] [''done''] = Inr True"
  by code_simp

text \<open>
  C2 (amended). For every task with a non-empty failed-when list and every host whose
  variables can be read: failed-when is evaluated against the scope of the host read
  before the module is invoked. If it parses true the module is not invoked, the store
  stays as it is and the result is an empty stdout with stderr \<open>failed by failedWhen\<close>;
  if it fails to parse, the result is its error as stderr; otherwise the result is the
  module's.
\<close>

theorem C2_failed_when_before_module:
  assumes "t_FailedWhen task \<noteq> []"
    and "Get_AllVariable env v host = Inr lg"
  shows "executeModule env task host pl v =
           (case ParseBool env lg (t_FailedWhen task) of
              Inl err \<Rightarrow> Inr (('''', err), v)
            | Inr ok \<Rightarrow>
                if ok then Inr (('''', ''failed by failedWhen''), v)
                else call_module env task host pl v)"
  using assms by (simp add: executeModule_def)

theorem C2_failed_when_before_module_witness:
  "executeModule (sample_env []) ((sample_task ''t'' ''echo'')\<lparr>t_FailedWhen := [''done'']\<rparr>)
        ''h1'' sample_pipeline [((''h1'', ''done''), VBool True)]
   = Inr (('''', ''failed by failedWhen''), [((''h1'', ''done''), VBool True)])"
  using C2_failed_when_before_module
          [of "(sample_task ''t'' ''echo'')\<lparr>t_FailedWhen := [''done'']\<rparr>" "sample_env []"
              "[((''h1'', ''done''), VBool True)]" "''h1''" "[(''done'', VBool True)]"
              sample_pipeline]
  by (simp add: sample_env_def store_scope_def)

subsection \<open>Fact gathering\<close>

lemma exec_plays_append:
  "exec_plays env (pre @ rest) e =
     (case exec_plays env pre e of
        None \<Rightarrow> None
      | Some (Some err, e1) \<Rightarrow> Some (Some err, e1)
      | Some (None, e1) \<Rightarrow> exec_plays env rest e1)"
  by (induction pre arbitrary: e) (auto split: option.splits prod.splits)

lemma exec_play_gather_fails:
  assumes "IsEnabled env (pl_Tags play) (p_Tags (pipeline e)) (p_SkipTags (pipeline e))"
    and "Get_Hostnames env (variable e) (pl_Hosts play) = Inr (h # hs)"
    and "pl_GatherFacts play"
    and "gather_facts env (h # hs) (variable e) = (Some err, v')"
  shows "exec_play env play e = Some (Some (Error err), e\<lparr>variable := v'\<rparr>)"
  unfolding exec_play_def using assms by (simp del: gather_facts.simps)

lemma finish_task_failed_detail:
  "fst (finish_task task e) \<noteq> None
   \<or> p_FailedDetail (pipeline (snd (finish_task task e))) = p_FailedDetail (pipeline e)"
  by (simp add: finish_task_def count_task_def split: TaskPhase.splits)

lemma exec_plays_failed_detail:
  assumes "exec_plays env pb e = Some (None, e1)"
  shows "p_FailedDetail (pipeline e1) = p_FailedDetail (pipeline e)"
proof -
  let ?P = "\<lambda>e'::'a executor. p_FailedDetail (pipeline e') = p_FailedDetail (pipeline e)"
  let ?Q = "\<lambda>(r::error option) e'::'a executor.
              r \<noteq> None \<or> p_FailedDetail (pipeline e') = p_FailedDetail (pipeline e)"
  have leaf: "\<exists>r e'. exec_leaf env hosts role when at e2 = Some (r, e') \<and> ?Q r e'"
    if "?P e2" for hosts role "when" at and e2 :: "'a executor"
  proof -
    from exec_leaf_outcome[of env hosts role "when" at e2] obtain r e' where
      run: "exec_leaf env hosts role when at e2 = Some (r, e')"
      and o: "(r \<noteq> None \<and> pipeline e' = pipeline e2) \<or>
              (\<exists>task. IsComplete task \<and> r = fst (finish_task task e2)
                 \<and> pipeline e' = pipeline (snd (finish_task task e2)))"
      by blast
    from o have "?Q r e'"
    proof
      assume "r \<noteq> None \<and> pipeline e' = pipeline e2"
      then show ?thesis by simp
    next
      assume "\<exists>task. IsComplete task \<and> r = fst (finish_task task e2)
                 \<and> pipeline e' = pipeline (snd (finish_task task e2))"
      then obtain task where r: "r = fst (finish_task task e2)"
        and p: "pipeline e' = pipeline (snd (finish_task task e2))" by blast
      from finish_task_failed_detail[of task e2] that show ?thesis
        unfolding r p by auto
    qed
    with run show ?thesis by blast
  qed
  have "\<exists>r e'. exec_plays env pb e = Some (r, e') \<and> ?Q r e'"
    by (rule exec_plays_total_rule[where P = ?P and Q = ?Q]) (use leaf in auto)
  with assms show ?thesis by simp
qed

lemma gather_facts_fails_at:
  assumes "\<forall>v. getGatherFact env v h = Inl err"
  shows "\<exists>err' v'. gather_facts env (hs1 @ h # hs2) v = (Some err', v')
           \<and> ((\<forall>a \<in> set hs1. \<forall>v. \<exists>g. getGatherFact env v a = Inr g
                   \<and> fst (Merge_RemoteVariable env v a g) = None)
                \<longrightarrow> err' = err)"
proof (induction hs1 arbitrary: v)
  case Nil
  from assms show ?case by simp
next
  case (Cons a hs1)
  let ?ok = "\<lambda>hs. \<forall>a \<in> set hs. \<forall>v. \<exists>g. getGatherFact env v a = Inr g
                   \<and> fst (Merge_RemoteVariable env v a g) = None"
  show ?case
  proof (cases "getGatherFact env v a")
    case (Inl e1)
    have run: "gather_facts env ((a # hs1) @ h # hs2) v = (Some e1, v)"
      using Inl by simp
    have "\<not> ?ok (a # hs1)"
    proof
      assume "?ok (a # hs1)"
      then have "\<exists>g. getGatherFact env v a = Inr g
                   \<and> fst (Merge_RemoteVariable env v a g) = None" by simp
      with Inl show False by simp
    qed
    with run show ?thesis by blast
  next
    case (Inr g)
    obtain x v1 where m: "Merge_RemoteVariable env v a g = (x, v1)"
      by (cases "Merge_RemoteVariable env v a g")
    show ?thesis
    proof (cases x)
      case (Some e2)
      have run: "gather_facts env ((a # hs1) @ h # hs2) v = (Some e2, v1)"
        using Inr m Some by simp
      have "\<not> ?ok (a # hs1)"
      proof
        assume "?ok (a # hs1)"
        then have "\<exists>g. getGatherFact env v a = Inr g
                     \<and> fst (Merge_RemoteVariable env v a g) = None" by simp
        with Inr m Some show False by simp
      qed
      with run show ?thesis by blast
    next
      case None
      from Cons.IH[of v1] obtain err' v' where
        r: "gather_facts env (hs1 @ h # hs2) v1 = (Some err', v')"
        and s: "?ok hs1 \<longrightarrow> err' = err"
        by blast
      have run: "gather_facts env ((a # hs1) @ h # hs2) v = (Some err', v')"
        using Inr m None r by simp
      have "?ok (a # hs1) \<longrightarrow> err' = err" using s by simp
      with run show ?thesis by blast
    qed
  qed
qed

text \<open>
  C6 (the claim as stated fails). A play with gather-facts set on the hosts \<open>h1\<close> and
  \<open>h2\<close>, of which \<open>h2\<close> cannot be reached, followed by a second play: \<open>Exec\<close> returns
  the error of the fact gathering, no task of either play is created, and the phase of
  the pipeline at return is Succeeded.
\<close>

theorem C6_counterexample:
  "outcome (Exec ((sample_env [(sample_play [leaf ''t1'' ''echo''] [])
                                 \<lparr>pl_Hosts := [''h1'', ''h2''], pl_GatherFacts := True\<rparr>,
                               sample_play [leaf ''t2'' ''echo''] []])
                    \<lparr>getGatherFact := (\<lambda>v h. if h = ''h2'' then Inl ''unreachable'' else Inr [])\<rparr>)
              sample_executor)
   = Some (Some (Error ''unreachable''), [], PipelinePhaseSucceed,
           [PipelinePhaseRunning, PipelinePhaseSucceed])"
  by code_simp

text \<open>
  C6 (amended). For every play with gather-facts set that the driver reaches (the plays
  before it returned no error; it is enabled) and every host \<open>h\<close> of the play for which
  \<open>getGatherFact\<close> fails: \<open>Exec\<close> returns an error of the fact gathering with the
  executor as the earlier plays left it, but for the store of the gathering, so neither
  a batch of this play nor a later play is run; the error is the one of \<open>h\<close> when the
  hosts before \<open>h\<close> gather and merge their facts; and the phase at return is Succeeded
  when no failure detail was recorded at the entry of \<open>Exec\<close>, Failed otherwise.
\<close>

theorem C6_gather_failure_aborts:
  assumes "project_New env (set_phase PipelinePhaseRunning (pipeline e))
             = Inr (Inr (pre @ play # post))"
    and "exec_plays env pre (e\<lparr>pipeline := set_phase PipelinePhaseRunning (pipeline e)\<rparr>)
           = Some (None, e1)"
    and "IsEnabled env (pl_Tags play) (p_Tags (pipeline e1)) (p_SkipTags (pipeline e1))"
    and "Get_Hostnames env (variable e1) (pl_Hosts play) = Inr (hs1 @ h # hs2)"
    and "pl_GatherFacts play"
    and "\<forall>v. getGatherFact env v h = Inl err"
  shows "\<exists>err' v'.
           Exec env e
             = Some (Some (Error err'),
                     e1\<lparr>variable := v', pipeline := Exec_deferred (pipeline e1)\<rparr>)
           \<and> ((\<forall>a \<in> set hs1. \<forall>v. \<exists>g. getGatherFact env v a = Inr g
                   \<and> fst (Merge_RemoteVariable env v a g) = None)
                \<longrightarrow> err' = err)
           \<and> p_Phase (Exec_deferred (pipeline e1))
               = (if p_FailedDetail (pipeline e) = [] then PipelinePhaseSucceed
                  else PipelinePhaseFailed)"
proof -
  let ?e0 = "e\<lparr>pipeline := set_phase PipelinePhaseRunning (pipeline e)\<rparr>"
  from gather_facts_fails_at[OF assms(6), of hs1 hs2 "variable e1"] obtain err' v' where
    g: "gather_facts env (hs1 @ h # hs2) (variable e1) = (Some err', v')"
    and same: "(\<forall>a \<in> set hs1. \<forall>v. \<exists>g. getGatherFact env v a = Inr g
                   \<and> fst (Merge_RemoteVariable env v a g) = None) \<longrightarrow> err' = err"
    by blast
  obtain h0 hs0 where hosts: "hs1 @ h # hs2 = h0 # hs0" by (cases hs1) auto
  have play: "exec_play env play e1 = Some (Some (Error err'), e1\<lparr>variable := v'\<rparr>)"
    using exec_play_gather_fails[OF assms(3) assms(4)[unfolded hosts] assms(5) g[unfolded hosts]] .
  have "exec_plays env (pre @ play # post) ?e0 = Some (Some (Error err'), e1\<lparr>variable := v'\<rparr>)"
    using assms(2) play by (simp add: exec_plays_append)
  then have run: "Exec env e
           = Some (Some (Error err'),
                   e1\<lparr>variable := v', pipeline := Exec_deferred (pipeline e1)\<rparr>)"
    using assms(1) by (simp add: Exec_def Exec_body_def)
  have "p_FailedDetail (pipeline e1) = p_FailedDetail (pipeline ?e0)"
    by (rule exec_plays_failed_detail[OF assms(2)])
  then have "p_Phase (Exec_deferred (pipeline e1))
             = (if p_FailedDetail (pipeline e) = [] then PipelinePhaseSucceed
                else PipelinePhaseFailed)"
    by (simp add: Exec_deferred_def set_phase_def Let_def)
  with run same show ?thesis by blast
qed

theorem C6_gather_failure_aborts_witness:
  "\<exists>v'. Exec ((sample_env [(sample_play [leaf ''t1'' ''echo''] [])
                              \<lparr>pl_Hosts := [''h1'', ''h2''], pl_GatherFacts := True\<rparr>,
                            sample_play [leaf ''t2'' ''echo''] []])
                 \<lparr>getGatherFact := (\<lambda>v h. if h = ''h2'' then Inl ''unreachable'' else Inr [])\<rparr>)
            sample_executor
      = Some (Some (Error ''unreachable''),
              sample_executor
                \<lparr>variable := v',
                 pipeline := Exec_deferred (set_phase PipelinePhaseRunning sample_pipeline)\<rparr>)
    \<and> p_Phase (Exec_deferred (set_phase PipelinePhaseRunning sample_pipeline))
        = PipelinePhaseSucceed"
proof -
  let ?play = "(sample_play [leaf ''t1'' ''echo''] [])
                 \<lparr>pl_Hosts := [''h1'', ''h2''], pl_GatherFacts := True\<rparr>"
  let ?env = "(sample_env [?play, sample_play [leaf ''t2'' ''echo''] []])
                 \<lparr>getGatherFact := (\<lambda>v h. if h = ''h2'' then Inl ''unreachable'' else Inr [])\<rparr>"
  let ?e1 = "sample_executor\<lparr>pipeline := set_phase PipelinePhaseRunning sample_pipeline\<rparr>"
  have a1: "project_New ?env (set_phase PipelinePhaseRunning (pipeline sample_executor))
             = Inr (Inr ([] @ ?play # [sample_play [leaf ''t2'' ''echo''] []]))"
    by (simp add: sample_env_def)
  have a2: "exec_plays ?env []
              (sample_executor\<lparr>pipeline := set_phase PipelinePhaseRunning (pipeline sample_executor)\<rparr>)
            = Some (None, ?e1)"
    by (simp add: sample_executor_def)
  have a3: "IsEnabled ?env (pl_Tags ?play) (p_Tags (pipeline ?e1)) (p_SkipTags (pipeline ?e1))"
    by (simp add: sample_env_def)
  have a4: "Get_Hostnames ?env (variable ?e1) (pl_Hosts ?play) = Inr ([''h1''] @ ''h2'' # [])"
    by (simp add: sample_env_def)
  have a5: "pl_GatherFacts ?play" by simp
  have a6: "\<forall>v. getGatherFact ?env v ''h2'' = Inl ''unreachable''" by simp
  have ok: "\<forall>a \<in> set [''h1'']. \<forall>v. \<exists>g. getGatherFact ?env v a = Inr g
              \<and> fst (Merge_RemoteVariable ?env v a g) = None"
    by (simp add: sample_env_def store_merge_def)
  from C6_gather_failure_aborts[OF a1 a2 a3 a4 a5 a6] ok
  show ?thesis
    by (auto simp: sample_executor_def sample_pipeline_def)
qed

subsection \<open>Task materialization\<close>

text \<open>
  C7 (the claim as stated fails). A leaf block whose only unrecognised field \<open>foo\<close>
  names no module and holds a value that \<open>json.Marshal\<close> rejects: the walker returns
  the error of \<open>json.Marshal\<close>, not the no-module error (no task is created).
\<close>

theorem C7_counterexample:
  "outcome (execBlock ((sample_env [])\<lparr>json_Marshal :=
                          (\<lambda>a. if a = VStr ''.nan'' then Inl ''json: unsupported value''
                                else Inr ''{}'')\<rparr>)
              [''h1''] '''' []
              [Block ''t'' [] [] [] False [] [] [] '''' [(''foo'', VStr ''.nan'')] [] '''' None False]
              sample_executor)
   = Some (Some (Error ''json: unsupported value''), [], PipelinePhasePending, [])"
  by code_simp

lemma exec_leaf_no_module:
  assumes "\<forall>n \<in> fst ` set (b_UnknownFiled at). FindModule env n = None"
  shows "\<exists>msg. exec_leaf env hosts role when at e = Some (Some (Error msg), e)
           \<and> ((\<forall>t. SetControllerReference env (pipeline e) t = None)
                 \<and> (\<forall>a \<in> snd ` set (b_UnknownFiled at). \<exists>d. json_Marshal env a = Inr d)
               \<longrightarrow> msg = ''no module/action detected in task: '')"
proof -
  let ?tk = "(MarshalBlock role hosts (when @ b_When at) at)
                   \<lparr>t_GenerateName := p_Name (pipeline e) @ ''-'',
                    t_Namespace := p_Namespace (pipeline e)\<rparr>"
  let ?tko = "?tk\<lparr>t_Owner := Some (p_Name (pipeline e))\<rparr>"
  show ?thesis
  proof (cases "SetControllerReference env (pipeline e) ?tk")
    case (Some err)
    then show ?thesis by (auto simp: exec_leaf_def Let_def)
  next
    case ref: None
    show ?thesis
    proof (cases "complete_module env (b_UnknownFiled at) ?tko")
      case (Inl err)
      with ref complete_module_marshalled[OF assms, of ?tko] show ?thesis
        by (auto simp: exec_leaf_def Let_def)
    next
      case (Inr task1)
      with complete_module_no_match[OF assms] have "task1 = ?tko" by blast
      with ref Inr show ?thesis
        by (simp add: exec_leaf_def Let_def MarshalBlock_def)
    qed
  qed
qed

text \<open>
  C7 (amended). If the tasks handed to \<open>Create\<close> so far have a non-empty module name,
  then so have all tasks handed to it when \<open>Exec\<close> returns (and it returns). For every
  leaf block none of whose unrecognised fields names a registered module, the
  materialization fails with an error and leaves the executor as it is (no task is
  created); the error is the no-module error whenever setting the controller reference
  succeeds and every unrecognised field marshals.
\<close>

theorem C7_module_before_create:
  assumes "\<forall>t \<in> set (created e). t_ModuleName t \<noteq> ''''"
  shows "(\<exists>r e'. Exec env e = Some (r, e') \<and> (\<forall>t \<in> set (created e'). t_ModuleName t \<noteq> ''''))
         \<and> ((\<forall>n \<in> fst ` set (b_UnknownFiled at). FindModule env n = None) \<longrightarrow>
              (\<exists>msg. exec_leaf env hosts role whens at e2 = Some (Some (Error msg), e2)
                 \<and> ((\<forall>t. SetControllerReference env (pipeline e2) t = None)
                       \<and> (\<forall>a \<in> snd ` set (b_UnknownFiled at). \<exists>d. json_Marshal env a = Inr d)
                     \<longrightarrow> msg = ''no module/action detected in task: '')))"
proof -
  let ?P = "\<lambda>e1::'a executor. \<forall>t \<in> set (created e1). t_ModuleName t \<noteq> ''''"
  let ?e0 = "e\<lparr>pipeline := set_phase PipelinePhaseRunning (pipeline e)\<rparr>"
  have leaf: "\<exists>r e'. exec_leaf env hosts role when at e1 = Some (r, e') \<and> ?P e'"
    if "?P e1" for hosts role "when" at and e1 :: "'a executor"
    using exec_leaf_outcome[of env hosts role "when" at e1] that by auto
  have P0: "?P ?e0" using assms by simp
  have "\<exists>r e'. Exec_body env ?e0 = Some (r, e') \<and> ?P e'"
    by (rule Exec_body_total_rule[where P = ?P and Q = "\<lambda>r. ?P"]) (use leaf P0 in auto)
  then obtain r e1 where b: "Exec_body env ?e0 = Some (r, e1)" and P1: "?P e1" by blast
  have "Exec env e = Some (r, e1\<lparr>pipeline := Exec_deferred (pipeline e1)\<rparr>)"
    using b by (simp add: Exec_def)
  with P1 have "\<exists>r e'. Exec env e = Some (r, e') \<and> ?P e'" by simp
  with exec_leaf_no_module[of at env hosts role whens e2] show ?thesis by blast
qed

theorem C7_module_before_create_witness:
  "(\<exists>r e'. Exec (sample_env [sample_play [leaf ''t1'' ''echo''] []]) sample_executor = Some (r, e')
       \<and> (\<forall>t \<in> set (created e'). t_ModuleName t \<noteq> ''''))
   \<and> exec_leaf (sample_env [sample_play [leaf ''t1'' ''echo''] []]) [''h1''] '''' []
         (leaf ''t'' ''nosuch'') sample_executor
       = Some (Some (Error ''no module/action detected in task: ''), sample_executor)"
  using C7_module_before_create
          [where e = sample_executor and env = "sample_env [sample_play [leaf ''t1'' ''echo''] []]"
             and at = "leaf ''t'' ''nosuch''" and hosts = "[''h1'']" and role = "''''"
             and whens = "[]" and ?e2.0 = sample_executor]
  by (simp add: sample_env_def sample_executor_def leaf_def sample_modules_def)

subsection \<open>The loop item\<close>

lemma executeModule_store:
  "executeModule env task host pl v = Inr (out, v') \<Longrightarrow>
   v' = v \<or> (\<exists>m. FindModule env (t_ModuleName task) = Some m
                \<and> v' = snd (m (t_ModuleArgs task) host task pl v))"
  by (auto simp: executeModule_def call_module_def split: sum.splits option.splits if_splits)

lemma item_disciplineD:
  assumes "item_discipline env task pl I"
  shows "fst (Merge_RuntimeVariable env v h [(''item'', VNil)]) = None"
    and "\<not> I (snd (Merge_RuntimeVariable env v h [(''item'', VNil)])) h"
    and "h' \<noteq> h \<Longrightarrow> \<not> I v h' \<Longrightarrow> \<not> I (snd (Merge_RuntimeVariable env v h vd)) h'"
    and "fst (Merge_RuntimeVariable env v h [(''item'', x)]) \<noteq> None \<Longrightarrow> \<not> I v h
           \<Longrightarrow> \<not> I (snd (Merge_RuntimeVariable env v h [(''item'', x)])) h"
    and "\<not> I v h \<Longrightarrow> \<not> I (snd (Merge_RuntimeVariable env v h [(t_Register task, x)])) h"
    and "FindModule env (t_ModuleName task) = Some m \<Longrightarrow> h' \<noteq> h \<Longrightarrow> \<not> I v h'
           \<Longrightarrow> \<not> I (snd (m (t_ModuleArgs task) h task pl v)) h'"
proof -
  note a = assms[unfolded item_discipline_def]
  note c1 = a[THEN conjunct1, rule_format]
  note c2 = a[THEN conjunct2, THEN conjunct1, rule_format]
  note c3 = a[THEN conjunct2, THEN conjunct2, THEN conjunct1, rule_format]
  note c4 = a[THEN conjunct2, THEN conjunct2, THEN conjunct2, THEN conjunct1, rule_format]
  note c5 = a[THEN conjunct2, THEN conjunct2, THEN conjunct2, THEN conjunct2, rule_format]
  show "fst (Merge_RuntimeVariable env v h [(''item'', VNil)]) = None"
    by (rule c1[THEN conjunct1])
  show "\<not> I (snd (Merge_RuntimeVariable env v h [(''item'', VNil)])) h"
    by (rule c1[THEN conjunct2])
  show "\<not> I (snd (Merge_RuntimeVariable env v h vd)) h'" if "h' \<noteq> h" "\<not> I v h'"
    using that(2) c2[OF that(1), of v vd] by (rule contrapos_nn)
  show "\<not> I (snd (Merge_RuntimeVariable env v h [(''item'', x)])) h"
    if "fst (Merge_RuntimeVariable env v h [(''item'', x)]) \<noteq> None" "\<not> I v h"
    using that(2) c3[OF that(1)] by (rule contrapos_nn)
  show "\<not> I (snd (Merge_RuntimeVariable env v h [(t_Register task, x)])) h" if "\<not> I v h"
    using that c4[of v h x] by (rule contrapos_nn)
  show "\<not> I (snd (m (t_ModuleArgs task) h task pl v)) h'"
    if "FindModule env (t_ModuleName task) = Some m" "h' \<noteq> h" "\<not> I v h'"
    using that(3) c5[OF that(1,2), of v] by (rule contrapos_nn)
qed

lemma run_items_item_free:
  assumes d: "item_discipline env task pl I"
  shows "\<forall>h. \<not> I v h \<Longrightarrow> run_items env task host pl items out v = Inr (out', v')
         \<Longrightarrow> \<forall>h. \<not> I v' h"
proof (induction items arbitrary: out v)
  case Nil
  then show ?case by simp
next
  case (Cons item rest)
  note D = item_disciplineD[OF d]
  obtain x v1 where m1: "Merge_RuntimeVariable env v host [(''item'', item)] = (x, v1)"
    by (cases "Merge_RuntimeVariable env v host [(''item'', item)]")
  have others1: "\<not> I v1 h" if "h \<noteq> host" for h
    using D(3)[OF that, of v "[(''item'', item)]"] Cons.prems(1) m1 by simp
  show ?case
  proof (cases x)
    case (Some err)
    have "\<not> I v1 host"
      using D(4)[of v host item] m1 Some Cons.prems(1) by simp
    with others1 have "\<not> I v1 h" for h by (cases "h = host") simp_all
    then have "\<forall>h. \<not> I v1 h" by simp
    moreover have "v' = v1" using Cons.prems(2) m1 Some by simp
    ultimately show ?thesis by simp
  next
    case xn: None
    have "\<exists>out1 v2. executeModule env task host pl v1 = Inr (out1, v2)"
    proof (cases "executeModule env task host pl v1")
      case (Inl p)
      with Cons.prems(2) m1 xn show ?thesis by simp
    next
      case (Inr ov)
      then show ?thesis by (cases ov) simp
    qed
    then obtain out1 v2 where
      em: "executeModule env task host pl v1 = Inr (out1, v2)" by blast
    have others2: "\<not> I v2 h" if "h \<noteq> host" for h
    proof -
      from executeModule_store[OF em] show ?thesis
      proof
        assume "v2 = v1"
        with others1[OF that] show ?thesis by simp
      next
        assume "\<exists>m. FindModule env (t_ModuleName task) = Some m
                  \<and> v2 = snd (m (t_ModuleArgs task) host task pl v1)"
        then obtain m where "FindModule env (t_ModuleName task) = Some m"
          and "v2 = snd (m (t_ModuleArgs task) host task pl v1)" by blast
        with D(6)[OF _ that others1[OF that]] show ?thesis by simp
      qed
    qed
    obtain y v3 where m2: "Merge_RuntimeVariable env v2 host [(''item'', VNil)] = (y, v3)"
      by (cases "Merge_RuntimeVariable env v2 host [(''item'', VNil)]")
    have y: "y = None" using D(1)[of v2 host] m2 by simp
    have here3: "\<not> I v3 host" using D(2)[of v2 host] m2 by simp
    have "\<not> I v3 h" if "h \<noteq> host" for h
      using D(3)[OF that others2[OF that], of "[(''item'', VNil)]"] m2 by simp
    with here3 have "\<not> I v3 h" for h by (cases "h = host") simp_all
    then have free3: "\<forall>h. \<not> I v3 h" by simp
    have "run_items env task host pl rest out1 v3 = Inr (out', v')"
      using Cons.prems(2) m1 xn em m2 y by simp
    from Cons.IH[OF free3 this] show ?thesis .
  qed
qed

lemma run_host_item_free:
  assumes d: "item_discipline env task pl I"
    and free: "\<forall>h. \<not> I v h"
    and run: "run_host env task pl host v = Inr (r, v')"
  shows "\<forall>h. \<not> I v' h"
proof -
  note D = item_disciplineD[OF d]
  from run obtain out v1 where
    body: "host_body env task host pl v = Inr (out, v1)"
    and deferred: "host_deferred env task host out v1 = (r, v')"
    by (auto simp: run_host_def split: sum.splits)
  have free1: "\<forall>h. \<not> I v1 h"
    using body free run_items_item_free[OF d free]
    by (auto simp: host_body_def host_loop_def execLoop_def
          split: sum.splits if_splits option.splits)
  show ?thesis
  proof (cases "t_Register task = ''''")
    case True
    with deferred free1 show ?thesis by (simp add: host_deferred_def)
  next
    case False
    let ?reg = "VMap [(''stdout'', VStr (fst out)), (''stderr'', VStr (snd out))]"
    from deferred False
    have v': "v' = snd (Merge_RuntimeVariable env v1 host [(t_Register task, ?reg)])"
      by (auto simp: host_deferred_def split: prod.splits option.splits)
    have "\<not> I v' h" for h
    proof (cases "h = host")
      case True
      with D(5)[of v1 host ?reg] free1 v' show ?thesis by simp
    next
      case False
      with D(3)[OF False, of v1 "[(t_Register task, ?reg)]"] free1 v' show ?thesis by simp
    qed
    then show ?thesis by blast
  qed
qed

lemma run_hosts_item_free:
  assumes d: "item_discipline env task pl I"
  shows "\<forall>h. \<not> I v h \<Longrightarrow> run_hosts env task pl hosts v = Inr (rs, v') \<Longrightarrow> \<forall>h. \<not> I v' h"
proof (induction hosts arbitrary: v rs)
  case Nil
  then show ?case by simp
next
  case (Cons host hosts)
  from Cons.prems(2) obtain r v1 rs1 where
    one: "run_host env task pl host v = Inr (r, v1)"
    and more: "run_hosts env task pl hosts v1 = Inr (rs1, v')"
    by (auto split: sum.splits)
  from Cons.IH[OF run_host_item_free[OF d Cons.prems(1) one] more] show ?case .
qed

lemma store_put_keys:
  "(hk \<in> fst ` set (store_put h v kx)) =
     (if hk = (h, fst kx) then snd kx \<noteq> VNil else hk \<in> fst ` set v)"
  by (auto simp: store_put_def)

lemma store_merge_other_host:
  "h' \<noteq> h \<Longrightarrow>
   ((h', k) \<in> fst ` set (snd (store_merge v h vd))) = ((h', k) \<in> fst ` set v)"
proof -
  assume ne: "h' \<noteq> h"
  have "((h', k) \<in> fst ` set (foldl (store_put h) v vd)) = ((h', k) \<in> fst ` set v)"
  proof (induction vd arbitrary: v)
    case Nil
    show ?case by simp
  next
    case (Cons kx vd)
    show ?case using ne by (simp add: Cons.IH store_put_keys)
  qed
  then show ?thesis by (simp add: store_merge_def)
qed

lemma sample_item_discipline:
  assumes "t_Register task = ''''" and "t_ModuleName task = ''echo''"
  shows "item_discipline (sample_env pb) task pl sample_holds_item"
  unfolding item_discipline_def
proof (intro conjI allI impI)
  fix v :: store and h h' :: string and vd :: vars and x :: anyv
    and m :: "store module"
  show "fst (Merge_RuntimeVariable (sample_env pb) v h [(''item'', VNil)]) = None"
    by (simp add: sample_env_def store_merge_def)
  show "\<not> sample_holds_item (snd (Merge_RuntimeVariable (sample_env pb) v h [(''item'', VNil)])) h"
    by (simp add: sample_env_def store_merge_def sample_holds_item_def store_put_keys)
  show "sample_holds_item v h'"
    if "h' \<noteq> h" "sample_holds_item (snd (Merge_RuntimeVariable (sample_env pb) v h vd)) h'"
    using that by (simp add: sample_env_def sample_holds_item_def store_merge_other_host)
  show "sample_holds_item v h"
    if "fst (Merge_RuntimeVariable (sample_env pb) v h [(''item'', x)]) \<noteq> None"
    using that by (simp add: sample_env_def store_merge_def)
  show "sample_holds_item v h"
    if "sample_holds_item
          (snd (Merge_RuntimeVariable (sample_env pb) v h [(t_Register task, x)])) h"
    using that assms(1)
    by (simp add: sample_env_def sample_holds_item_def store_merge_def store_put_keys
          split: if_splits)
  show "sample_holds_item v h'"
    if "FindModule (sample_env pb) (t_ModuleName task) = Some m"
      "sample_holds_item (snd (m (t_ModuleArgs task) h task pl v)) h'"
    using that assms(2) by (auto simp: sample_env_def sample_modules_def)
qed

lemma sample_loop_run:
  "executeTask (sample_env [])
       ((sample_task ''t'' ''echo'')\<lparr>t_Loop := Some (VList [VInt 1, VInt 2])\<rparr>) sample_pipeline
       [((''h1'', ''x''), VInt 7)]
     = Inr ((sample_task ''t'' ''echo'')
              \<lparr>t_Loop := Some (VList [VInt 1, VInt 2]),
               t_Phase := TaskPhaseSuccess,
               t_Conditions := [[\<lparr>hr_Host = ''h1'', hr_Stdout = ''hi'', hr_StdErr = ''''\<rparr>]]\<rparr>,
            [((''h1'', ''x''), VInt 7)])"
  by code_simp

text \<open>
  C9 (the claim as stated fails). The task loops over the one item 1 on host \<open>h1\<close>, on a
  store that refuses the merge of \<open>{item: nil}\<close>. The module succeeds, the clearing
  merge is attempted and fails, the host's stderr reports it, and when the task runner
  returns the overlay of \<open>h1\<close> still holds \<open>item = 1\<close>.
\<close>

theorem C9_counterexample:
  "task_outcome (executeTask ((sample_env [])\<lparr>Merge_RuntimeVariable := readonly_nil\<rparr>)
                   ((sample_task ''t'' ''echo'')\<lparr>t_Loop := Some (VList [VInt 1])\<rparr>)
                   sample_pipeline [])
   = Some (TaskPhaseFailed,
           [[\<lparr>hr_Host = ''h1'', hr_Stdout = ''hi'',
              hr_StdErr = ''clean loop item to variable error: read-only''\<rparr>]],
           [((''h1'', ''item''), VInt 1)])"
  by code_simp

text \<open>
  C9 (amended). For every task, every host list and every loop: the merge of
  \<open>{item: nil}\<close> follows every module invocation, whether or not the invocation
  failed. So if the store, the task's module and its register name keep the discipline
  of the loop item (in particular the clearing merge succeeds), and no host's overlay
  holds an item value when the task runner starts, then none does when it returns.
\<close>

theorem C9_item_cleared:
  assumes "item_discipline env task pl holds_item"
    and "\<forall>h. \<not> holds_item v h"
    and "executeTask env task pl v = Inr (task', v')"
  shows "\<not> holds_item v' h"
proof -
  from assms(3) obtain datas where "run_hosts env task pl (t_Hosts task) v = Inr (datas, v')"
    by (auto simp: executeTask_def split: sum.splits prod.splits)
  from run_hosts_item_free[OF assms(1,2) this] show ?thesis by simp
qed

theorem C9_item_cleared_witness:
  "item_discipline (sample_env [])
     ((sample_task ''t'' ''echo'')\<lparr>t_Loop := Some (VList [VInt 1, VInt 2])\<rparr>) sample_pipeline
     sample_holds_item
   \<and> (\<forall>h. \<not> sample_holds_item [((''h1'', ''x''), VInt 7)] h)
   \<and> executeTask (sample_env [])
        ((sample_task ''t'' ''echo'')\<lparr>t_Loop := Some (VList [VInt 1, VInt 2])\<rparr>) sample_pipeline
        [((''h1'', ''x''), VInt 7)]
      = Inr ((sample_task ''t'' ''echo'')
               \<lparr>t_Loop := Some (VList [VInt 1, VInt 2]),
                t_Phase := TaskPhaseSuccess,
                t_Conditions := [[\<lparr>hr_Host = ''h1'', hr_Stdout = ''hi'', hr_StdErr = ''''\<rparr>]]\<rparr>,
             [((''h1'', ''x''), VInt 7)])
   \<and> \<not> sample_holds_item [((''h1'', ''x''), VInt 7)] ''h1''"
proof -
  have d: "item_discipline (sample_env [])
     ((sample_task ''t'' ''echo'')\<lparr>t_Loop := Some (VList [VInt 1, VInt 2])\<rparr>) sample_pipeline
     sample_holds_item"
    by (rule sample_item_discipline) (simp_all add: sample_task_def MarshalBlock_def leaf_def)
  have free: "\<forall>h. \<not> sample_holds_item [((''h1'', ''x''), VInt 7)] h"
    by (simp add: sample_holds_item_def)
  from C9_item_cleared[OF d free sample_loop_run, of "''h1''"] d free sample_loop_run
  show ?thesis by simp
qed

end
